theory Spec2Isabelle
  imports Complex_Main "HOL-Library.AList"
begin

section \<open>JavaScript values\<close>

text \<open>
  The converter (\<^verbatim>\<open>src/utils/converter.ts\<close>) maps JavaScript values to the tagged
  values of the Firestore REST API and back. Both sides are JavaScript values; the model
  keeps two types for them. A \<^emph>\<open>wire\<close> value is what \<^verbatim>\<open>JSON.parse\<close> can produce
  (null, booleans, numbers, strings, arrays, objects); the declared parameter type of the
  decoder, \<^verbatim>\<open>FirestoreFieldValue\<close>, is a subset of it. A native value (\<open>jsval\<close>) is what
  a caller can hand to the encoder: the same, and \<^verbatim>\<open>undefined\<close>, symbols, functions,
  \<^verbatim>\<open>Date\<close> objects and \<^verbatim>\<open>DocumentReference\<close> handles.

  An object is the list of its own enumerable string-keyed properties in the order of
  \<^verbatim>\<open>Object.keys\<close>; the keys of a JavaScript object are distinct. Objects with a
  prototype other than \<^verbatim>\<open>Object.prototype\<close>, accessor properties, sparse arrays and
  bigints are outside the model.
\<close>

datatype error = RangeError | TypeError | HostError string

text \<open>
  A JavaScript number. The converter never calculates with numbers, it only asks
  \<^verbatim>\<open>Number.isInteger\<close>, so a finite number is kept as the rational it denotes (every
  finite double is one).
\<close>

datatype jsnum = NaN | PosInfinity | NegInfinity | NegZero | Finite rat

fun isInteger :: "jsnum \<Rightarrow> bool" where
  "isInteger (Finite q) = (rat_of_int \<lfloor>q\<rfloor> = q)"
| "isInteger NegZero = True"
| "isInteger _ = False"

datatype wire =
    WNull
  | WBool bool
  | WNum jsnum
  | WStr string
  | WArr "wire list"
  | WObj "(string \<times> wire) list"

text \<open>
  \<open>JDate None\<close> is an invalid Date (its time value is NaN), \<open>JDate (Some t)\<close> the
  instant \<open>t\<close> milliseconds after the epoch. \<open>JDocRef client path\<close> is an instance of
  \<^verbatim>\<open>DocumentReference\<close> (\<^verbatim>\<open>../client\<close>, not part of the sources): the client it is
  bound to and its path. \<open>JSymbol d\<close> is a symbol with description \<open>d\<close>, \<open>JFunction s\<close>
  a function whose source text is \<open>s\<close>.
\<close>

datatype jsval =
    JUndefined
  | JNull
  | JBool bool
  | JNum jsnum
  | JStr string
  | JSymbol string
  | JFunction string
  | JDate "int option"
  | JDocRef string string
  | JArr "jsval list"
  | JObj "(string \<times> jsval) list"

text \<open>
  What the converter calls and the sources do not define. \<open>getParentReference\<close> is
  \<^verbatim>\<open>value['client']['pathUtil'].getParentReference(value.path)\<close>, which may throw.
  \<open>toISOString\<close> is \<^verbatim>\<open>Date.prototype.toISOString\<close> on a valid time value and
  \<open>Date_parse\<close> is \<^verbatim>\<open>Date.parse\<close> (\<open>None\<close> for NaN). \<open>Number_of\<close> is
  \<^verbatim>\<open>Number(x)\<close> for an \<open>x\<close> that is not a number and \<open>Date_of\<close> is
  \<^verbatim>\<open>new Date(x)\<close> for an \<open>x\<close> that is not a string: the declared type
  \<^verbatim>\<open>FirestoreFieldValue\<close> excludes both. \<open>getDocumentId\<close> is imported from
  \<^verbatim>\<open>./path\<close>. The last two are the constructors of the classes
  \<^verbatim>\<open>LiteralGeoPointValue\<close> and \<^verbatim>\<open>LiteralDocumentReference\<close> that the second variant
  of the converter imports.
\<close>

record host =
  getParentReference :: "string \<Rightarrow> string \<Rightarrow> error + string"
  toISOString :: "int \<Rightarrow> string"
  Date_parse :: "string \<Rightarrow> int option"
  Number_of :: "wire \<Rightarrow> error + jsnum"
  Date_of :: "wire \<Rightarrow> error + int option"
  getDocumentId :: "string \<Rightarrow> string"
  newLiteralGeoPointValue :: "wire \<Rightarrow> error + jsval"
  newLiteralDocumentReference :: "wire \<Rightarrow> error + jsval"

subsection \<open>Library operations\<close>

text \<open>\<^verbatim>\<open>xs.map(f)\<close> where \<open>f\<close> may throw: the first exception ends the traversal.\<close>

fun mapE :: "('a \<Rightarrow> error + 'b) \<Rightarrow> 'a list \<Rightarrow> error + 'b list" where
  "mapE f [] = Inr []"
| "mapE f (x # xs) =
     (case f x of
        Inl e \<Rightarrow> Inl e
      | Inr y \<Rightarrow> (case mapE f xs of Inl e \<Rightarrow> Inl e | Inr ys \<Rightarrow> Inr (y # ys)))"

text \<open>\<^verbatim>\<open>xs.reduce(f, acc)\<close> where \<open>f\<close> may throw.\<close>

fun reduceE :: "('b \<Rightarrow> 'a \<Rightarrow> error + 'b) \<Rightarrow> 'b \<Rightarrow> 'a list \<Rightarrow> error + 'b" where
  "reduceE f acc [] = Inr acc"
| "reduceE f acc (x # xs) =
     (case f acc x of Inl e \<Rightarrow> Inl e | Inr acc' \<Rightarrow> reduceE f acc' xs)"

text \<open>
  The idiom all four functions of the converter use to rebuild an object,
  \<^verbatim>\<open>entries.reduce((acc, [key, val]) => ({...acc, [key]: f(val)}), {})\<close>.
  The object literal \<^verbatim>\<open>{...acc, [key]: v}\<close> is \<open>AList.update key v acc\<close>: a key
  that \<open>acc\<close> has keeps its place and takes the new value, a new key goes last.
\<close>

definition reduce_entries ::
  "('a \<Rightarrow> error + 'b) \<Rightarrow> (string \<times> 'a) list \<Rightarrow> error + (string \<times> 'b) list" where
  "reduce_entries f entries =
     reduceE (\<lambda>acc (key, val).
                case f val of Inl e \<Rightarrow> Inl e | Inr v \<Rightarrow> Inr (AList.update key v acc))
             [] entries"

lemma mapE_cong [fundef_cong]:
  "xs = ys \<Longrightarrow> (\<And>x. x \<in> set ys \<Longrightarrow> f x = g x) \<Longrightarrow> mapE f xs = mapE g ys"
  by (induction ys arbitrary: xs) (auto split: sum.splits)

lemma reduceE_cong:
  "xs = ys \<Longrightarrow> a = b \<Longrightarrow> (\<And>acc x. x \<in> set ys \<Longrightarrow> f acc x = g acc x)
   \<Longrightarrow> reduceE f a xs = reduceE g b ys"
  by (induction ys arbitrary: xs a b) (auto split: sum.splits)

lemma reduce_entries_cong [fundef_cong]:
  "xs = ys \<Longrightarrow> (\<And>k v. (k, v) \<in> set ys \<Longrightarrow> f v = g v)
   \<Longrightarrow> reduce_entries f xs = reduce_entries g ys"
  unfolding reduce_entries_def by (rule reduceE_cong) auto

subsection \<open>Operators on native values\<close>

fun typeof :: "jsval \<Rightarrow> string" where
  "typeof JUndefined = ''undefined''"
| "typeof JNull = ''object''"
| "typeof (JBool b) = ''boolean''"
| "typeof (JNum n) = ''number''"
| "typeof (JStr s) = ''string''"
| "typeof (JSymbol d) = ''symbol''"
| "typeof (JFunction s) = ''function''"
| "typeof (JDate t) = ''object''"
| "typeof (JDocRef c p) = ''object''"
| "typeof (JArr xs) = ''object''"
| "typeof (JObj kvs) = ''object''"

text \<open>\<^verbatim>\<open>!!x\<close>\<close>

fun truthy :: "jsval \<Rightarrow> bool" where
  "truthy JUndefined = False"
| "truthy JNull = False"
| "truthy (JBool b) = b"
| "truthy (JNum n) = (n \<noteq> NaN \<and> n \<noteq> NegZero \<and> n \<noteq> Finite 0)"
| "truthy (JStr s) = (s \<noteq> [])"
| "truthy _ = True"

text \<open>
  \<^verbatim>\<open>k in x\<close>, \<^verbatim>\<open>x.k\<close> and \<^verbatim>\<open>Object.keys(x)\<close>, for the keys the encoder asks for
  (\<^verbatim>\<open>referenceValue\<close>, \<^verbatim>\<open>geoPointValue\<close>, \<^verbatim>\<open>latitude\<close>, \<^verbatim>\<open>longitude\<close>) and an \<open>x\<close>
  whose \<^verbatim>\<open>typeof\<close> is \<^verbatim>\<open>'object'\<close> and that is not null. Neither
  \<^verbatim>\<open>Object.prototype\<close> nor an array nor a Date has a property of one of these names; a
  \<^verbatim>\<open>DocumentReference\<close> is taken to have none either.
\<close>

fun js_in :: "string \<Rightarrow> jsval \<Rightarrow> bool" where
  "js_in k (JObj kvs) = (k \<in> set (map fst kvs))"
| "js_in k _ = False"

fun js_get :: "jsval \<Rightarrow> string \<Rightarrow> jsval" where
  "js_get (JObj kvs) k = (case map_of kvs k of Some v \<Rightarrow> v | None \<Rightarrow> JUndefined)"
| "js_get _ k = JUndefined"

fun Object_keys :: "jsval \<Rightarrow> string list" where
  "Object_keys (JObj kvs) = map fst kvs"
| "Object_keys _ = []"

text \<open>A native string, number or boolean as the wire value it is.\<close>

fun to_wire :: "jsval \<Rightarrow> wire" where
  "to_wire (JStr s) = WStr s"
| "to_wire (JNum n) = WNum n"
| "to_wire (JBool b) = WBool b"
| "to_wire _ = WNull"

section \<open>The encoder\<close>

text \<open>
  The two checks for "special" shapes in the object branch of
  \<^verbatim>\<open>convertToFirestoreValue\<close> (lines 43 to 48 and 53 to 65), conjunct by conjunct.
\<close>

definition isReferenceLiteral :: "jsval \<Rightarrow> bool" where
  "isReferenceLiteral unknown \<longleftrightarrow>
     typeof unknown = ''object''
     \<and> truthy unknown \<and> js_in ''referenceValue'' unknown
     \<and> length (Object_keys unknown) = 1
     \<and> typeof (js_get unknown ''referenceValue'') = ''string''"

definition isGeoPointLiteral :: "jsval \<Rightarrow> bool" where
  "isGeoPointLiteral unknown \<longleftrightarrow>
     typeof unknown = ''object''
     \<and> truthy unknown
     \<and> js_in ''geoPointValue'' unknown
     \<and> length (Object_keys unknown) = 1
     \<and> typeof (js_get unknown ''geoPointValue'') = ''object''
     \<and> truthy (js_get unknown ''geoPointValue'')
     \<and> js_in ''latitude'' (js_get unknown ''geoPointValue'')
     \<and> js_in ''longitude'' (js_get unknown ''geoPointValue'')
     \<and> length (Object_keys (js_get unknown ''geoPointValue'')) = 1
     \<and> typeof (js_get (js_get unknown ''geoPointValue'') ''latitude'') = ''number''
     \<and> typeof (js_get (js_get unknown ''geoPointValue'') ''longitude'') = ''number''"

text \<open>
  \<^verbatim>\<open>convertToFirestoreValue\<close> of \<^verbatim>\<open>converter.ts\<close>. The chain of \<^verbatim>\<open>instanceof\<close>,
  \<^verbatim>\<open>typeof\<close> and \<^verbatim>\<open>Array.isArray\<close> tests is the case distinction on the value; no two
  of the tests hold of the same value, the last two equations are the fallback
  \<^verbatim>\<open>String(value)\<close>. \<^verbatim>\<open>toISOString\<close> throws a RangeError on an invalid Date.
\<close>

fun convertToFirestoreValue :: "host \<Rightarrow> jsval \<Rightarrow> error + wire" where
  "convertToFirestoreValue h (JDate t) =
     (case t of
        None \<Rightarrow> Inl RangeError
      | Some ms \<Rightarrow> Inr (WObj [(''timestampValue'', WStr (toISOString h ms))]))"
| "convertToFirestoreValue h (JDocRef client path) =
     (case getParentReference h client path of
        Inl e \<Rightarrow> Inl e
      | Inr r \<Rightarrow> Inr (WObj [(''referenceValue'', WStr r)]))"
| "convertToFirestoreValue h (JStr s) = Inr (WObj [(''stringValue'', WStr s)])"
| "convertToFirestoreValue h (JNum n) =
     Inr (if isInteger n then WObj [(''integerValue'', WNum n)]
          else WObj [(''doubleValue'', WNum n)])"
| "convertToFirestoreValue h (JBool b) = Inr (WObj [(''booleanValue'', WBool b)])"
| "convertToFirestoreValue h JNull = Inr (WObj [(''nullValue'', WNull)])"
| "convertToFirestoreValue h JUndefined = Inr (WObj [(''nullValue'', WNull)])"
| "convertToFirestoreValue h (JArr xs) =
     (case mapE (\<lambda>item. convertToFirestoreValue h item) xs of
        Inl e \<Rightarrow> Inl e
      | Inr ws \<Rightarrow> Inr (WObj [(''arrayValue'', WObj [(''values'', WArr ws)])]))"
| "convertToFirestoreValue h (JObj kvs) =
     (if isReferenceLiteral (JObj kvs)
      then Inr (WObj [(''referenceValue'', to_wire (js_get (JObj kvs) ''referenceValue''))])
      else if isGeoPointLiteral (JObj kvs)
      then Inr (WObj [(''geoPointValue'', WObj
             [(''latitude'', to_wire (js_get (js_get (JObj kvs) ''geoPointValue'') ''latitude'')),
              (''longitude'', to_wire (js_get (js_get (JObj kvs) ''geoPointValue'') ''longitude''))])])
      else (case reduce_entries (convertToFirestoreValue h) kvs of
              Inl e \<Rightarrow> Inl e
            | Inr flds \<Rightarrow> Inr (WObj [(''mapValue'', WObj [(''fields'', WObj flds)])])))"
| "convertToFirestoreValue h (JSymbol d) =
     Inr (WObj [(''stringValue'', WStr (''Symbol('' @ d @ '')''))])"
| "convertToFirestoreValue h (JFunction s) = Inr (WObj [(''stringValue'', WStr s)])"

section \<open>The decoder\<close>

text \<open>A wire value handed back as it is.\<close>

primrec of_wire :: "wire \<Rightarrow> jsval" where
  "of_wire WNull = JNull"
| "of_wire (WBool b) = JBool b"
| "of_wire (WNum n) = JNum n"
| "of_wire (WStr s) = JStr s"
| "of_wire (WArr xs) = JArr (map of_wire xs)"
| "of_wire (WObj kvs) = JObj (map (map_prod id of_wire) kvs)"

text \<open>
  What reading the property \<^verbatim>\<open>fields\<close> or \<^verbatim>\<open>values\<close> of a wire value gives:
  \<^verbatim>\<open>undefined\<close>, a member, or the method \<^verbatim>\<open>Array.prototype.values\<close> when the value is
  an array. Reading a property of null throws a TypeError; booleans, numbers and strings
  have no property of either name.
\<close>

datatype property = Undefined | Builtin | Data wire

fun js_prop :: "wire \<Rightarrow> string \<Rightarrow> error + property" where
  "js_prop WNull k = Inl TypeError"
| "js_prop (WObj m) k = Inr (case map_of m k of None \<Rightarrow> Undefined | Some v \<Rightarrow> Data v)"
| "js_prop (WArr xs) k = Inr (if k = ''values'' then Builtin else Undefined)"
| "js_prop _ k = Inr Undefined"

fun prop_truthy :: "property \<Rightarrow> bool" where
  "prop_truthy Undefined = False"
| "prop_truthy Builtin = True"
| "prop_truthy (Data w) = truthy (of_wire w)"

text \<open>
  \<^verbatim>\<open>"outer" in fv && fv.outer.inner\<close>, as far as its truth value and, when it is
  true, its value go.
\<close>

definition member_of :: "(string \<times> wire) list \<Rightarrow> string \<Rightarrow> string \<Rightarrow> error + property" where
  "member_of kvs outer inner =
     (case map_of kvs outer of None \<Rightarrow> Inr Undefined | Some x \<Rightarrow> js_prop x inner)"

text \<open>The key of an array index: its decimal numeral.\<close>

definition digit_char :: "nat \<Rightarrow> char" where
  "digit_char n = ''0123456789'' ! (n mod 10)"

fun index_key :: "nat \<Rightarrow> string" where
  "index_key n =
     (if n < 10 then [digit_char n]
      else index_key (n div 10) @ [digit_char n])"

text \<open>
  \<^verbatim>\<open>Object.entries\<close> of a truthy value: the members of an object, the elements of an
  array and the characters of a string under their indices, nothing for a number, a
  boolean or a function.
\<close>

fun Object_entries :: "property \<Rightarrow> (string \<times> wire) list" where
  "Object_entries (Data (WObj m)) = m"
| "Object_entries (Data (WArr xs)) = zip (map index_key [0..<length xs]) xs"
| "Object_entries (Data (WStr s)) =
     zip (map index_key [0..<length s]) (map (\<lambda>c. WStr [c]) s)"
| "Object_entries _ = []"

definition js_Number :: "host \<Rightarrow> wire \<Rightarrow> error + jsval" where
  "js_Number h w =
     (case w of
        WNum n \<Rightarrow> Inr (JNum n)
      | _ \<Rightarrow> (case Number_of h w of Inl e \<Rightarrow> Inl e | Inr n \<Rightarrow> Inr (JNum n)))"

definition new_Date :: "host \<Rightarrow> wire \<Rightarrow> error + jsval" where
  "new_Date h w =
     (case w of
        WStr s \<Rightarrow> Inr (JDate (Date_parse h s))
      | _ \<Rightarrow> (case Date_of h w of Inl e \<Rightarrow> Inl e | Inr t \<Rightarrow> Inr (JDate t)))"

lemma map_of_size: "map_of m k = Some v \<Longrightarrow> size v < size (WObj m)"
  by (induction m) (auto split: if_splits)

lemma js_prop_size: "js_prop x k = Inr (Data v) \<Longrightarrow> size v < size x"
  by (cases x) (auto split: option.splits if_splits dest: map_of_size)

lemma member_of_size: "member_of kvs a b = Inr (Data v) \<Longrightarrow> Suc (size v) < size (WObj kvs)"
  unfolding member_of_def
  by (auto split: option.splits dest!: js_prop_size map_of_size)

lemma in_set_size_WArr: "x \<in> set xs \<Longrightarrow> size x < size (WArr xs)"
  by (induction xs) auto

lemma in_set_size_WObj: "(k, v) \<in> set m \<Longrightarrow> size v < size (WObj m)"
  by (induction m) auto

lemma Object_entries_size:
  assumes "(k, v) \<in> set (Object_entries (Data w))"
  shows "size v \<le> size w"
proof (cases w)
  case (WArr xs)
  with assms have "v \<in> set xs" by (auto dest: set_zip_rightD)
  with WArr show ?thesis using in_set_size_WArr[of v xs] by simp
next
  case (WObj m)
  with assms show ?thesis using in_set_size_WObj[of k v m] by simp
next
  case (WStr s)
  with assms have "v \<in> set (map (\<lambda>c. WStr [c]) s)" by (auto dest: set_zip_rightD)
  then show ?thesis by auto
qed (use assms in auto)

lemma entries_decrease:
  assumes "member_of kvs a b = Inr f" and "(k, v) \<in> set (Object_entries f)"
  shows "size v < size (WObj kvs)"
proof (cases f)
  case (Data w)
  with assms show ?thesis
    using member_of_size[of kvs a b w] Object_entries_size[of k v w] by simp
qed (use assms in auto)

text \<open>
  \<^verbatim>\<open>convertFromFirestoreValue\<close> of \<^verbatim>\<open>converter.ts\<close>. \<^verbatim>\<open>k in firestoreValue\<close> is
  \<open>map_of kvs k \<noteq> None\<close> and then \<^verbatim>\<open>firestoreValue.k\<close> is the member found. The
  operator \<^verbatim>\<open>in\<close> throws a TypeError on a value that is not an object; an array is an
  object with none of the ten keys. \<^verbatim>\<open>values.map\<close> is a function only when
  \<^verbatim>\<open>values\<close> is an array: calling it on anything else throws a TypeError.
\<close>

function convertFromFirestoreValue :: "host \<Rightarrow> wire \<Rightarrow> error + jsval" where
  "convertFromFirestoreValue h (WObj kvs) =
    (case map_of kvs ''stringValue'' of Some p \<Rightarrow> Inr (of_wire p) | None \<Rightarrow>
     (case map_of kvs ''integerValue'' of Some p \<Rightarrow> js_Number h p | None \<Rightarrow>
     (case map_of kvs ''doubleValue'' of Some p \<Rightarrow> Inr (of_wire p) | None \<Rightarrow>
     (case map_of kvs ''booleanValue'' of Some p \<Rightarrow> Inr (of_wire p) | None \<Rightarrow>
     (case map_of kvs ''nullValue'' of Some p \<Rightarrow> Inr JNull | None \<Rightarrow>
     (case map_of kvs ''timestampValue'' of Some p \<Rightarrow> new_Date h p | None \<Rightarrow>
     (case map_of kvs ''geoPointValue'' of Some p \<Rightarrow> Inr (of_wire (WObj kvs)) | None \<Rightarrow>
     (case map_of kvs ''referenceValue'' of Some p \<Rightarrow> Inr (of_wire (WObj kvs)) | None \<Rightarrow>
      (case member_of kvs ''mapValue'' ''fields'' of
        Inl e \<Rightarrow> Inl e
      | Inr flds \<Rightarrow>
          if prop_truthy flds
          then (case reduce_entries (convertFromFirestoreValue h) (Object_entries flds) of
                  Inl e \<Rightarrow> Inl e
                | Inr obj \<Rightarrow> Inr (JObj obj))
          else (case member_of kvs ''arrayValue'' ''values'' of
                  Inl e \<Rightarrow> Inl e
                | Inr vals \<Rightarrow>
                    if prop_truthy vals
                    then (case vals of
                            Data (WArr xs) \<Rightarrow>
                              (case mapE (convertFromFirestoreValue h) xs of
                                 Inl e \<Rightarrow> Inl e
                               | Inr vs \<Rightarrow> Inr (JArr vs))
                          | _ \<Rightarrow> Inl TypeError)
                    else Inr JNull))))))))))"
| "convertFromFirestoreValue h (WArr xs) = Inr JNull"
| "convertFromFirestoreValue h WNull = Inl TypeError"
| "convertFromFirestoreValue h (WBool b) = Inl TypeError"
| "convertFromFirestoreValue h (WNum n) = Inl TypeError"
| "convertFromFirestoreValue h (WStr s) = Inl TypeError"
  by pat_completeness auto
termination
proof (relation "measure (\<lambda>(h, fv). size fv)", goal_cases)
  case 1
  show ?case by simp
next
  case (2 h kvs flds key val)
  then show ?case
    using entries_decrease[of kvs "''mapValue''" "''fields''" flds key val] by simp
next
  case (3 h kvs flds vals w xs x)
  then show ?case
    using member_of_size[of kvs "''arrayValue''" "''values''" "WArr xs"]
      in_set_size_WArr[of x xs]
    by simp
qed

text \<open>
  \<^verbatim>\<open>convertFromFirestoreValue\<close> of the second variant of the converter
  (\<^verbatim>\<open>unnamed/part_000\<close>). It differs in three branches: a geo point and a reference
  become instances of \<^verbatim>\<open>LiteralGeoPointValue\<close> and \<^verbatim>\<open>LiteralDocumentReference\<close>,
  and the array branch is taken whenever the key \<^verbatim>\<open>arrayValue\<close> is there, with
  \<^verbatim>\<open>firestoreValue.arrayValue.values ?? []\<close> for the elements.
\<close>

function convertFromFirestoreValue_part000 :: "host \<Rightarrow> wire \<Rightarrow> error + jsval" where
  "convertFromFirestoreValue_part000 h (WObj kvs) =
    (case map_of kvs ''stringValue'' of Some p \<Rightarrow> Inr (of_wire p) | None \<Rightarrow>
     (case map_of kvs ''integerValue'' of Some p \<Rightarrow> js_Number h p | None \<Rightarrow>
     (case map_of kvs ''doubleValue'' of Some p \<Rightarrow> Inr (of_wire p) | None \<Rightarrow>
     (case map_of kvs ''booleanValue'' of Some p \<Rightarrow> Inr (of_wire p) | None \<Rightarrow>
     (case map_of kvs ''nullValue'' of Some p \<Rightarrow> Inr JNull | None \<Rightarrow>
     (case map_of kvs ''timestampValue'' of Some p \<Rightarrow> new_Date h p | None \<Rightarrow>
     (case map_of kvs ''geoPointValue'' of Some p \<Rightarrow> newLiteralGeoPointValue h (WObj kvs) | None \<Rightarrow>
     (case map_of kvs ''referenceValue'' of Some p \<Rightarrow> newLiteralDocumentReference h (WObj kvs) | None \<Rightarrow>
      (case member_of kvs ''mapValue'' ''fields'' of
        Inl e \<Rightarrow> Inl e
      | Inr flds \<Rightarrow>
          if prop_truthy flds
          then (case reduce_entries (convertFromFirestoreValue_part000 h) (Object_entries flds) of
                  Inl e \<Rightarrow> Inl e
                | Inr obj \<Rightarrow> Inr (JObj obj))
          else (case map_of kvs ''arrayValue'' of
                  None \<Rightarrow> Inr JNull
                | Some av \<Rightarrow>
                    (case js_prop av ''values'' of
                       Inl e \<Rightarrow> Inl e
                     | Inr Undefined \<Rightarrow> Inr (JArr [])
                     | Inr (Data WNull) \<Rightarrow> Inr (JArr [])
                     | Inr (Data (WArr xs)) \<Rightarrow>
                         (case mapE (convertFromFirestoreValue_part000 h) xs of
                            Inl e \<Rightarrow> Inl e
                          | Inr vs \<Rightarrow> Inr (JArr vs))
                     | Inr _ \<Rightarrow> Inl TypeError)))))))))))"
| "convertFromFirestoreValue_part000 h (WArr xs) = Inr JNull"
| "convertFromFirestoreValue_part000 h WNull = Inl TypeError"
| "convertFromFirestoreValue_part000 h (WBool b) = Inl TypeError"
| "convertFromFirestoreValue_part000 h (WNum n) = Inl TypeError"
| "convertFromFirestoreValue_part000 h (WStr s) = Inl TypeError"
  by pat_completeness auto
termination
proof (relation "measure (\<lambda>(h, fv). size fv)", goal_cases)
  case 1
  show ?case by simp
next
  case (2 h kvs flds key val)
  then show ?case
    using entries_decrease[of kvs "''mapValue''" "''fields''" flds key val] by simp
next
  case (3 h kvs flds av vals w xs x)
  then show ?case
    using map_of_size[of kvs "''arrayValue''" av] js_prop_size[of av "''values''" "WArr xs"]
      in_set_size_WArr[of x xs]
    by simp
qed

section \<open>Documents\<close>

text \<open>
  \<^verbatim>\<open>FirestoreDocument\<close> and \<^verbatim>\<open>FirestoreResponse\<close> of \<^verbatim>\<open>types.ts\<close>; an optional
  member is an \<open>option\<close>.
\<close>

record FirestoreDocument =
  document_name :: "string option"
  document_fields :: "(string \<times> wire) list"
  document_createTime :: "string option"
  document_updateTime :: "string option"

record FirestoreResponse =
  response_name :: string
  response_fields :: "(string \<times> wire) list option"
  response_createTime :: "string option"
  response_updateTime :: "string option"

definition convertToFirestoreDocument ::
  "host \<Rightarrow> (string \<times> jsval) list \<Rightarrow> error + FirestoreDocument" where
  "convertToFirestoreDocument h data =
     (case reduce_entries (convertToFirestoreValue h) data of
        Inl e \<Rightarrow> Inl e
      | Inr flds \<Rightarrow>
          Inr \<lparr> document_name = None, document_fields = flds,
                document_createTime = None, document_updateTime = None \<rparr>)"

definition convertFromFirestoreDocument :: "host \<Rightarrow> FirestoreResponse \<Rightarrow> error + jsval" where
  "convertFromFirestoreDocument h doc =
     (case response_fields doc of
        None \<Rightarrow> Inr (JObj [(''id'', JStr (getDocumentId h (response_name doc)))])
      | Some flds \<Rightarrow>
          (case reduce_entries (convertFromFirestoreValue h) flds of
             Inl e \<Rightarrow> Inl e
           | Inr result \<Rightarrow>
               Inr (JObj (AList.update ''id'' (JStr (getDocumentId h (response_name doc)))
                            result))))"

definition convertFromFirestoreDocument_part000 ::
  "host \<Rightarrow> FirestoreResponse \<Rightarrow> error + jsval" where
  "convertFromFirestoreDocument_part000 h doc =
     (case response_fields doc of
        None \<Rightarrow> Inr (JObj [(''id'', JStr (getDocumentId h (response_name doc)))])
      | Some flds \<Rightarrow>
          (case reduce_entries (convertFromFirestoreValue_part000 h) flds of
             Inl e \<Rightarrow> Inl e
           | Inr result \<Rightarrow>
               Inr (JObj (AList.update ''id'' (JStr (getDocumentId h (response_name doc)))
                            result))))"

text \<open>
  Modelled from the spec: \<^verbatim>\<open>getDocumentId\<close> of \<^verbatim>\<open>./path\<close> is not among the sources.
  The spec has it return the final path segment of a resource name: it "strips all path
  segments up to and including the last \<^verbatim>\<open>/\<close>".
\<close>

definition path_getDocumentId :: "string \<Rightarrow> string" where
  "path_getDocumentId path = rev (takeWhile (\<lambda>c. c \<noteq> CHR ''/'') (rev path))"

section \<open>Vocabulary of the properties\<close>

text \<open>The ten discriminator keys of \<^verbatim>\<open>FirestoreFieldValue\<close> (\<^verbatim>\<open>types.ts\<close>, lines 37 to 47).\<close>

definition discriminators :: "string list" where
  "discriminators =
     [''stringValue'', ''integerValue'', ''doubleValue'', ''booleanValue'', ''nullValue'',
      ''timestampValue'', ''geoPointValue'', ''referenceValue'', ''mapValue'', ''arrayValue'']"

text \<open>
  A wire value has exactly one of the discriminator keys, and so has every wire value
  among the fields of its \<^verbatim>\<open>mapValue\<close> and the elements of its \<^verbatim>\<open>arrayValue\<close>.
\<close>

function one_discriminator :: "wire \<Rightarrow> bool" where
  "one_discriminator (WObj kvs) =
     (length (filter (\<lambda>k. k \<in> set discriminators) (map fst kvs)) = 1
      \<and> (case member_of kvs ''mapValue'' ''fields'' of
            Inr (Data (WObj flds)) \<Rightarrow> list_all (\<lambda>(k, w). one_discriminator w) flds
          | _ \<Rightarrow> True)
      \<and> (case member_of kvs ''arrayValue'' ''values'' of
            Inr (Data (WArr ws)) \<Rightarrow> list_all one_discriminator ws
          | _ \<Rightarrow> True))"
| "one_discriminator (WArr xs) = False"
| "one_discriminator WNull = False"
| "one_discriminator (WBool b) = False"
| "one_discriminator (WNum n) = False"
| "one_discriminator (WStr s) = False"
  by pat_completeness auto
termination
proof (relation "measure size", goal_cases)
  case 1
  show ?case by simp
next
  case (2 kvs p w flds kv k v)
  then show ?case
    using member_of_size[of kvs "''mapValue''" "''fields''" "WObj flds"]
      in_set_size_WObj[of k v flds]
    by simp
next
  case (3 kvs p w ws x)
  then show ?case
    using member_of_size[of kvs "''arrayValue''" "''values''" "WArr ws"]
      in_set_size_WArr[of x ws]
    by simp
qed

text \<open>
  The values on which the encoder does not throw: no invalid Date, and no
  \<^verbatim>\<open>DocumentReference\<close> whose resolution throws, anywhere in the value.
\<close>

fun encodable :: "host \<Rightarrow> jsval \<Rightarrow> bool" where
  "encodable h (JDate t) = (t \<noteq> None)"
| "encodable h (JDocRef client path) =
     (case getParentReference h client path of Inl e \<Rightarrow> False | Inr r \<Rightarrow> True)"
| "encodable h (JArr xs) = list_all (encodable h) xs"
| "encodable h (JObj kvs) = list_all (\<lambda>(k, v). encodable h v) kvs"
| "encodable h _ = True"

text \<open>
  The values of type \<^verbatim>\<open>FirestoreFieldValue\<close> as \<^verbatim>\<open>types.ts\<close> declares it: one
  discriminator key and a payload of the declared type.
\<close>

inductive FirestoreFieldValue :: "wire \<Rightarrow> bool" where
  stringValue: "FirestoreFieldValue (WObj [(''stringValue'', WStr s)])"
| integerValue: "FirestoreFieldValue (WObj [(''integerValue'', WNum n)])"
| doubleValue: "FirestoreFieldValue (WObj [(''doubleValue'', WNum n)])"
| booleanValue: "FirestoreFieldValue (WObj [(''booleanValue'', WBool b)])"
| nullValue: "FirestoreFieldValue (WObj [(''nullValue'', WNull)])"
| timestampValue: "FirestoreFieldValue (WObj [(''timestampValue'', WStr s)])"
| geoPointValue:
    "FirestoreFieldValue
       (WObj [(''geoPointValue'', WObj [(''latitude'', WNum lat), (''longitude'', WNum lng)])])"
| referenceValue: "FirestoreFieldValue (WObj [(''referenceValue'', WStr s)])"
| mapValue:
    "list_all (\<lambda>(k, w). FirestoreFieldValue w) flds
     \<Longrightarrow> FirestoreFieldValue (WObj [(''mapValue'', WObj [(''fields'', WObj flds)])])"
| arrayValue:
    "list_all FirestoreFieldValue ws
     \<Longrightarrow> FirestoreFieldValue (WObj [(''arrayValue'', WObj [(''values'', WArr ws)])])"

code_pred FirestoreFieldValue .

text \<open>
  The native values of the round-trip property: strings, numbers, booleans, null, Dates,
  arrays of such values and objects (with distinct keys) of such values.
\<close>

fun plain_native :: "jsval \<Rightarrow> bool" where
  "plain_native (JStr s) = True"
| "plain_native (JNum n) = True"
| "plain_native (JBool b) = True"
| "plain_native JNull = True"
| "plain_native (JDate t) = True"
| "plain_native (JArr xs) = list_all plain_native xs"
| "plain_native (JObj kvs) =
     (distinct (map fst kvs) \<and> list_all (\<lambda>(k, v). plain_native v) kvs)"
| "plain_native _ = False"

text \<open>
  Every Date in the value is valid, and parsing the string that \<^verbatim>\<open>toISOString\<close>
  gives for it yields its time value again (what ECMAScript promises of
  \<^verbatim>\<open>Date.parse(d.toISOString())\<close>).
\<close>

fun dates_roundtrip :: "host \<Rightarrow> jsval \<Rightarrow> bool" where
  "dates_roundtrip h (JDate t) =
     (case t of None \<Rightarrow> False | Some ms \<Rightarrow> Date_parse h (toISOString h ms) = Some ms)"
| "dates_roundtrip h (JArr xs) = list_all (dates_roundtrip h) xs"
| "dates_roundtrip h (JObj kvs) = list_all (\<lambda>(k, v). dates_roundtrip h v) kvs"
| "dates_roundtrip h _ = True"

text \<open>The callback of \<open>reduce_entries\<close> and its effect on one entry.\<close>

definition set_entry ::
  "('a \<Rightarrow> error + 'b) \<Rightarrow> (string \<times> 'b) list \<Rightarrow> string \<times> 'a \<Rightarrow> error + (string \<times> 'b) list" where
  "set_entry f acc kv =
     (case f (snd kv) of Inl e \<Rightarrow> Inl e | Inr v \<Rightarrow> Inr (AList.update (fst kv) v acc))"

definition on_value :: "('a \<Rightarrow> error + 'b) \<Rightarrow> string \<times> 'a \<Rightarrow> error + string \<times> 'b" where
  "on_value f kv = (case f (snd kv) of Inl e \<Rightarrow> Inl e | Inr v \<Rightarrow> Inr (fst kv, v))"

subsection \<open>Dates of a host\<close>

text \<open>
  \<^verbatim>\<open>Date.prototype.toISOString\<close> as ECMAScript defines it: the day number and the time
  within the day of a time value, the civil date of the day number in the proleptic
  Gregorian calendar, and the format \<^verbatim>\<open>YYYY-MM-DDTHH:mm:ss.sssZ\<close>, with a sign and six
  digits for a year outside 0 to 9999. \<open>ecma_Date_parse\<close> reads the strings of this
  format and no others. The two instantiate the host where a property is run on a
  concrete Date.
\<close>

definition civil_from_days :: "int \<Rightarrow> int \<times> int \<times> int" where
  "civil_from_days days =
     (let z = days + 719468;
          era = z div 146097;
          doe = z mod 146097;
          yoe = (doe - doe div 1460 + doe div 36524 - doe div 146096) div 365;
          doy = doe - (365 * yoe + yoe div 4 - yoe div 100);
          mp = (5 * doy + 2) div 153;
          d = doy - (153 * mp + 2) div 5 + 1;
          m = (if mp < 10 then mp + 3 else mp - 9);
          y = yoe + era * 400
      in (if m \<le> 2 then y + 1 else y, m, d))"

definition days_from_civil :: "int \<Rightarrow> int \<Rightarrow> int \<Rightarrow> int" where
  "days_from_civil y m d =
     (let y' = (if m \<le> 2 then y - 1 else y);
          era = y' div 400;
          yoe = y' mod 400;
          doy = (153 * (if m > 2 then m - 3 else m + 9) + 2) div 5 + d - 1;
          doe = yoe * 365 + yoe div 4 - yoe div 100 + doy
      in era * 146097 + doe - 719468)"

definition digits2 :: "int \<Rightarrow> string" where
  "digits2 n = [digit_char (nat (n div 10)), digit_char (nat n)]"

definition digits3 :: "int \<Rightarrow> string" where
  "digits3 n = digit_char (nat (n div 100)) # digits2 n"

definition digits4 :: "int \<Rightarrow> string" where
  "digits4 n = digit_char (nat (n div 1000)) # digits3 n"

definition digits6 :: "int \<Rightarrow> string" where
  "digits6 n = digit_char (nat (n div 100000)) # digit_char (nat (n div 10000)) # digits4 n"

definition ecma_toISOString :: "int \<Rightarrow> string" where
  "ecma_toISOString t =
     (let (y, m, d) = civil_from_days (t div 86400000);
          ms = t mod 86400000;
          year = (if 0 \<le> y \<and> y \<le> 9999 then digits4 y
                  else (if y < 0 then ''-'' else ''+'') @ digits6 \<bar>y\<bar>)
      in year @ ''-'' @ digits2 m @ ''-'' @ digits2 d @ ''T'' @ digits2 (ms div 3600000)
         @ '':'' @ digits2 (ms div 60000 mod 60) @ '':'' @ digits2 (ms div 1000 mod 60)
         @ ''.'' @ digits3 (ms mod 1000) @ ''Z'')"

definition digits_value :: "string \<Rightarrow> int" where
  "digits_value s = foldl (\<lambda>a c. 10 * a + (int (of_char c) - 48)) 0 s"

definition ecma_Date_parse :: "string \<Rightarrow> int option" where
  "ecma_Date_parse s =
     (let (sign, r) = (case s of
                         c # cs \<Rightarrow> (if c = CHR ''+'' then (1, drop 2 cs)
                                    else if c = CHR ''-'' then (- 1, drop 2 cs) else (0, s))
                       | [] \<Rightarrow> (0, s));
          y = (if sign = 0 then digits_value (take 4 s)
               else sign * digits_value (take 6 (drop 1 s)));
          field = (\<lambda>i n. digits_value (take n (drop i r)));
          t = days_from_civil y (field 5 2) (field 8 2) * 86400000 + field 11 2 * 3600000
              + field 14 2 * 60000 + field 17 2 * 1000 + field 20 3
      in if ecma_toISOString t = s then Some t else None)"

section \<open>Traversals\<close>

text \<open>\<open>mapE\<close> returns exactly when \<open>f\<close> returns on every element, with the results in order.\<close>


lemma mapE_Inr_iff: "mapE f xs = Inr ys \<longleftrightarrow> list_all2 (\<lambda>x y. f x = Inr y) xs ys"
proof (induction xs arbitrary: ys)
  case Nil
  then show ?case by auto
next
  case (Cons x xs)
  show ?case
    by (cases ys) (auto simp: Cons.IH[symmetric] split: sum.splits)
qed

lemma mapE_total: "(\<And>x. x \<in> set xs \<Longrightarrow> \<exists>y. f x = Inr y) \<Longrightarrow> \<exists>ys. mapE f xs = Inr ys"
proof (induction xs)
  case Nil
  then show ?case by simp
next
  case (Cons x xs)
  from Cons.prems obtain y where "f x = Inr y" by auto
  moreover from Cons obtain ys where "mapE f xs = Inr ys" by auto
  ultimately show ?case by simp
qed

lemma reduce_entries_alt: "reduce_entries f kvs = reduceE (set_entry f) [] kvs"
proof -
  have "(\<lambda>acc (key, val). case f val of Inl e \<Rightarrow> Inl e | Inr v \<Rightarrow> Inr (AList.update key v acc))
        = set_entry f"
    by (simp add: fun_eq_iff set_entry_def split: prod.splits sum.splits)
  then show ?thesis by (simp add: reduce_entries_def)
qed

lemma update_fresh: "k \<notin> fst ` set acc \<Longrightarrow> AList.update k v acc = acc @ [(k, v)]"
  by (induction acc) auto

lemma set_update_subset: "set (AList.update k v acc) \<subseteq> insert (k, v) (set acc)"
  by (induction acc) auto

lemma keys_update: "fst ` set (AList.update k v acc) = insert k (fst ` set acc)"
  by (induction acc) auto

lemma reduceE_set_entry_Cons:
  "reduceE (set_entry f) acc (kv # kvs) = Inr ys \<longleftrightarrow>
   (\<exists>v. f (snd kv) = Inr v \<and> reduceE (set_entry f) (AList.update (fst kv) v acc) kvs = Inr ys)"
  by (cases "f (snd kv)") (simp_all add: set_entry_def)

lemma reduceE_set_entry_distinct:
  "distinct (map fst kvs) \<Longrightarrow> fst ` set kvs \<inter> fst ` set acc = {} \<Longrightarrow>
   reduceE (set_entry f) acc kvs
   = (case mapE (on_value f) kvs of Inl e \<Rightarrow> Inl e | Inr ys \<Rightarrow> Inr (acc @ ys))"
proof (induction kvs arbitrary: acc)
  case Nil
  then show ?case by simp
next
  case (Cons kv kvs)
  show ?case
  proof (cases "f (snd kv)")
    case (Inl e)
    then show ?thesis by (simp add: set_entry_def on_value_def)
  next
    case (Inr v)
    from Cons.prems have fresh: "fst kv \<notin> fst ` set acc" by auto
    from Cons.prems have d: "distinct (map fst kvs)"
      and disj: "fst ` set kvs \<inter> fst ` set (acc @ [(fst kv, v)]) = {}" by auto
    have step: "set_entry f acc kv = Inr (acc @ [(fst kv, v)])"
      by (simp add: set_entry_def Inr update_fresh[OF fresh])
    have ov: "on_value f kv = Inr (fst kv, v)"
      by (simp add: on_value_def Inr)
    show ?thesis
      using Cons.IH[OF d disj]
      by (simp add: step ov split: sum.splits)
  qed
qed

lemma reduce_entries_distinct:
  "distinct (map fst kvs) \<Longrightarrow> reduce_entries f kvs = mapE (on_value f) kvs"
  using reduceE_set_entry_distinct[of kvs "[]" f]
  by (simp add: reduce_entries_alt split: sum.splits)

lemma on_value_Inr_iff: "on_value f kv = Inr r \<longleftrightarrow> fst r = fst kv \<and> f (snd kv) = Inr (snd r)"
  by (cases r) (auto simp: on_value_def split: sum.splits)

lemma reduce_entries_Inr_iff:
  assumes "distinct (map fst kvs)"
  shows "reduce_entries f kvs = Inr ys \<longleftrightarrow>
         list_all2 (\<lambda>kv r. fst r = fst kv \<and> f (snd kv) = Inr (snd r)) kvs ys"
  by (simp add: reduce_entries_distinct[OF assms] mapE_Inr_iff on_value_Inr_iff)

lemma reduceE_set_entry_entries:
  "reduceE (set_entry f) acc kvs = Inr ys \<Longrightarrow> (k, y) \<in> set ys
   \<Longrightarrow> (k, y) \<in> set acc \<or> (\<exists>x. (k, x) \<in> set kvs \<and> f x = Inr y)"
proof (induction kvs arbitrary: acc)
  case Nil
  then show ?case by simp
next
  case (Cons kv kvs)
  from Cons.prems(1) obtain v where v: "f (snd kv) = Inr v"
    and rest: "reduceE (set_entry f) (AList.update (fst kv) v acc) kvs = Inr ys"
    unfolding reduceE_set_entry_Cons by blast
  from Cons.IH[OF rest Cons.prems(2)]
  have "(k, y) \<in> set (AList.update (fst kv) v acc) \<or> (\<exists>x. (k, x) \<in> set kvs \<and> f x = Inr y)" .
  then show ?case
  proof
    assume "(k, y) \<in> set (AList.update (fst kv) v acc)"
    with set_update_subset[of "fst kv" v acc] have "(k, y) = (fst kv, v) \<or> (k, y) \<in> set acc"
      by auto
    then show ?thesis
    proof
      assume "(k, y) = (fst kv, v)"
      with v have "(k, snd kv) \<in> set (kv # kvs) \<and> f (snd kv) = Inr y" by (cases kv) auto
      then show ?thesis by blast
    qed simp
  qed auto
qed

lemma reduce_entries_entries:
  "reduce_entries f kvs = Inr ys \<Longrightarrow> (k, y) \<in> set ys \<Longrightarrow> \<exists>x. (k, x) \<in> set kvs \<and> f x = Inr y"
  using reduceE_set_entry_entries[of f "[]" kvs ys k y] by (simp add: reduce_entries_alt)

lemma reduceE_set_entry_total:
  "(\<And>kv. kv \<in> set kvs \<Longrightarrow> \<exists>y. f (snd kv) = Inr y)
   \<Longrightarrow> \<exists>ys. reduceE (set_entry f) acc kvs = Inr ys"
proof (induction kvs arbitrary: acc)
  case Nil
  then show ?case by simp
next
  case (Cons kv kvs)
  from Cons.prems[of kv] obtain y where y: "f (snd kv) = Inr y" by auto
  have "\<exists>ys. reduceE (set_entry f) (AList.update (fst kv) y acc) kvs = Inr ys"
    by (rule Cons.IH) (simp add: Cons.prems)
  with y show ?case unfolding reduceE_set_entry_Cons by blast
qed

lemma reduce_entries_total:
  "(\<And>kv. kv \<in> set kvs \<Longrightarrow> \<exists>y. f (snd kv) = Inr y) \<Longrightarrow> \<exists>ys. reduce_entries f kvs = Inr ys"
  using reduceE_set_entry_total[of kvs f "[]"] by (simp add: reduce_entries_alt)

lemma reduceE_set_entry_each:
  "reduceE (set_entry f) acc kvs = Inr ys \<Longrightarrow> (k, x) \<in> set kvs \<Longrightarrow> \<exists>y. f x = Inr y"
proof (induction kvs arbitrary: acc)
  case Nil
  then show ?case by simp
next
  case (Cons kv kvs)
  from Cons.prems(1) obtain v where v: "f (snd kv) = Inr v"
    and rest: "reduceE (set_entry f) (AList.update (fst kv) v acc) kvs = Inr ys"
    unfolding reduceE_set_entry_Cons by blast
  from Cons.prems(2) have "(k, x) = kv \<or> (k, x) \<in> set kvs" by auto
  then show ?case
  proof
    assume "(k, x) = kv"
    with v show ?thesis by auto
  next
    assume "(k, x) \<in> set kvs"
    from Cons.IH[OF rest this] show ?thesis .
  qed
qed

lemma reduce_entries_each:
  "reduce_entries f kvs = Inr ys \<Longrightarrow> (k, x) \<in> set kvs \<Longrightarrow> \<exists>y. f x = Inr y"
  using reduceE_set_entry_each[of f "[]" kvs ys k x] by (simp add: reduce_entries_alt)

lemma reduceE_set_entry_keys:
  "reduceE (set_entry f) acc kvs = Inr ys \<Longrightarrow> fst ` set ys = fst ` set acc \<union> fst ` set kvs"
proof (induction kvs arbitrary: acc)
  case Nil
  then show ?case by simp
next
  case (Cons kv kvs)
  from Cons.prems(1) obtain v where v: "f (snd kv) = Inr v"
    and rest: "reduceE (set_entry f) (AList.update (fst kv) v acc) kvs = Inr ys"
    unfolding reduceE_set_entry_Cons by blast
  from Cons.IH[OF rest] show ?case by (simp add: keys_update)
qed

lemma reduce_entries_keys:
  "reduce_entries f kvs = Inr ys \<Longrightarrow> fst ` set ys = fst ` set kvs"
  using reduceE_set_entry_keys[of f "[]" kvs ys] by (simp add: reduce_entries_alt)


lemma mapE_each: "mapE f xs = Inr ys \<Longrightarrow> x \<in> set xs \<Longrightarrow> \<exists>y. f x = Inr y"
  by (induction xs arbitrary: ys) (auto split: sum.splits)

lemma mapE_values:
  "mapE f xs = Inr ys \<Longrightarrow> y \<in> set ys \<Longrightarrow> \<exists>x\<in>set xs. f x = Inr y"
proof (induction xs arbitrary: ys)
  case Nil
  then show ?case by simp
next
  case (Cons x xs)
  from Cons.prems(1) obtain z zs where z: "f x = Inr z" and zs: "mapE f xs = Inr zs"
    and ys: "ys = z # zs"
    by (auto split: sum.splits)
  from Cons.prems(2) ys have "y = z \<or> y \<in> set zs" by auto
  then show ?case
  proof
    assume "y = z"
    with z show ?thesis by simp
  next
    assume "y \<in> set zs"
    from Cons.IH[OF zs this] show ?thesis by auto
  qed
qed

lemma mapE_roundtrip:
  "(\<And>x. x \<in> set xs \<Longrightarrow> \<exists>w. f x = Inr w \<and> g w = Inr x)
   \<Longrightarrow> \<exists>ws. mapE f xs = Inr ws \<and> mapE g ws = Inr xs"
proof (induction xs)
  case Nil
  then show ?case by simp
next
  case (Cons x xs)
  from Cons.prems[of x] obtain w where w: "f x = Inr w" "g w = Inr x" by auto
  have "\<exists>ws. mapE f xs = Inr ws \<and> mapE g ws = Inr xs"
    by (rule Cons.IH) (simp add: Cons.prems)
  then obtain ws where "mapE f xs = Inr ws" "mapE g ws = Inr xs" by blast
  with w have "mapE f (x # xs) = Inr (w # ws) \<and> mapE g (w # ws) = Inr (x # xs)" by simp
  then show ?case by blast
qed

lemma mapE_on_value_keys: "mapE (on_value f) kvs = Inr ys \<Longrightarrow> map fst ys = map fst kvs"
proof (induction kvs arbitrary: ys)
  case Nil
  then show ?case by simp
next
  case (Cons kv kvs)
  then show ?case by (auto simp: on_value_def split: sum.splits)
qed

lemma entries_roundtrip:
  assumes d: "distinct (map fst kvs)"
    and each: "\<And>kv. kv \<in> set kvs \<Longrightarrow> \<exists>w. f (snd kv) = Inr w \<and> g w = Inr (snd kv)"
  shows "\<exists>flds. reduce_entries f kvs = Inr flds \<and> reduce_entries g flds = Inr kvs"
proof -
  have "\<And>kv. kv \<in> set kvs \<Longrightarrow> \<exists>r. on_value f kv = Inr r \<and> on_value g r = Inr kv"
  proof -
    fix kv assume "kv \<in> set kvs"
    from each[OF this] obtain w where "f (snd kv) = Inr w" "g w = Inr (snd kv)" by blast
    then have "on_value f kv = Inr (fst kv, w) \<and> on_value g (fst kv, w) = Inr kv"
      by (simp add: on_value_def)
    then show "\<exists>r. on_value f kv = Inr r \<and> on_value g r = Inr kv" by blast
  qed
  then have "\<exists>flds. mapE (on_value f) kvs = Inr flds \<and> mapE (on_value g) flds = Inr kvs"
    by (rule mapE_roundtrip)
  then obtain flds where f: "mapE (on_value f) kvs = Inr flds"
    and g: "mapE (on_value g) flds = Inr kvs" by blast
  from mapE_on_value_keys[OF f] d have "distinct (map fst flds)" by simp
  with f g d show ?thesis by (auto simp: reduce_entries_distinct)
qed

lemma map_of_update_same: "map_of (AList.update k v al) k = Some v"
  by (simp add: AList.update_conv')

lemma map_of_update_other: "k' \<noteq> k \<Longrightarrow> map_of (AList.update k v al) k' = map_of al k'"
  by (simp add: AList.update_conv')

lemma list_all2_entries_map_of:
  assumes "list_all2 (\<lambda>kv r. fst r = fst kv \<and> f (snd kv) = Inr (snd r)) kvs ys"
    and "distinct (map fst kvs)" and "(k, x) \<in> set kvs"
  shows "\<exists>y. f x = Inr y \<and> map_of ys k = Some y"
  using assms
proof (induction kvs ys rule: list_all2_induct)
  case Nil
  then show ?case by simp
next
  case (Cons kv kvs r ys)
  show ?case
  proof (cases "(k, x) = kv")
    case True
    with Cons.hyps(1) show ?thesis by (cases r) auto
  next
    case False
    with Cons.prems have in_rest: "(k, x) \<in> set kvs" and d: "distinct (map fst kvs)" by auto
    from Cons.prems in_rest have "fst kv \<noteq> k" by (auto simp: image_iff)
    with Cons.hyps(1) Cons.IH[OF d in_rest] show ?thesis by (cases r) auto
  qed
qed

section \<open>The encoder's special shapes\<close>

lemma isInteger_Finite: "isInteger (Finite q) \<longleftrightarrow> q \<in> \<int>"
  by (auto simp: Ints_def)

lemma isReferenceLiteral_iff:
  "isReferenceLiteral v \<longleftrightarrow> (\<exists>s. v = JObj [(''referenceValue'', JStr s)])"
proof
  assume a: "isReferenceLiteral v"
  then obtain kvs where v: "v = JObj kvs" by (cases v) (auto simp: isReferenceLiteral_def)
  from a v obtain k x where kvs: "kvs = [(k, x)]"
    by (cases kvs) (auto simp: isReferenceLiteral_def)
  from a v kvs have "k = ''referenceValue''" by (auto simp: isReferenceLiteral_def)
  moreover from a v kvs this obtain s where "x = JStr s"
    by (cases x) (auto simp: isReferenceLiteral_def)
  ultimately show "\<exists>s. v = JObj [(''referenceValue'', JStr s)]" using v kvs by simp
next
  assume "\<exists>s. v = JObj [(''referenceValue'', JStr s)]"
  then show "isReferenceLiteral v" by (auto simp: isReferenceLiteral_def)
qed

text \<open>
  The geo point check asks for both \<^verbatim>\<open>latitude\<close> and \<^verbatim>\<open>longitude\<close> in an object with
  exactly one key (line 62), so no value passes it.
\<close>

lemma geoPoint_shape_unreachable: "\<not> isGeoPointLiteral v"
proof
  assume a: "isGeoPointLiteral v"
  define gp where "gp = js_get v ''geoPointValue''"
  from a have lat: "js_in ''latitude'' gp" and lng: "js_in ''longitude'' gp"
    and one: "length (Object_keys gp) = 1"
    by (simp_all add: isGeoPointLiteral_def gp_def)
  from lat obtain m where m: "gp = JObj m" by (cases gp) auto
  from one m obtain kv where "m = [kv]" by (cases m) auto
  with lat lng m have "fst kv = ''latitude''" and "fst kv = ''longitude''" by auto
  then show False by simp
qed

lemma convertToFirestoreValue_JObj:
  "convertToFirestoreValue h (JObj kvs) =
     (if isReferenceLiteral (JObj kvs)
      then Inr (WObj [(''referenceValue'', to_wire (js_get (JObj kvs) ''referenceValue''))])
      else (case reduce_entries (convertToFirestoreValue h) kvs of
              Inl e \<Rightarrow> Inl e
            | Inr flds \<Rightarrow> Inr (WObj [(''mapValue'', WObj [(''fields'', WObj flds)])])))"
  by (simp add: geoPoint_shape_unreachable)

section \<open>The encoder's results\<close>

lemma one_discriminator_single:
  "k \<in> set discriminators \<Longrightarrow> k \<noteq> ''mapValue'' \<Longrightarrow> k \<noteq> ''arrayValue''
   \<Longrightarrow> one_discriminator (WObj [(k, p)])"
  by (simp add: member_of_def)

lemma one_discriminator_map:
  "one_discriminator (WObj [(''mapValue'', WObj [(''fields'', WObj flds)])])
   \<longleftrightarrow> list_all (\<lambda>(k, w). one_discriminator w) flds"
  by (simp add: member_of_def discriminators_def)

lemma one_discriminator_array:
  "one_discriminator (WObj [(''arrayValue'', WObj [(''values'', WArr ws)])])
   \<longleftrightarrow> list_all one_discriminator ws"
  by (simp add: member_of_def discriminators_def)

lemma one_discriminator_scalar:
  "one_discriminator (WObj [(''timestampValue'', p)])"
  "one_discriminator (WObj [(''referenceValue'', p)])"
  "one_discriminator (WObj [(''stringValue'', p)])"
  "one_discriminator (WObj [(''integerValue'', p)])"
  "one_discriminator (WObj [(''doubleValue'', p)])"
  "one_discriminator (WObj [(''booleanValue'', p)])"
  "one_discriminator (WObj [(''nullValue'', p)])"
  by (rule one_discriminator_single; simp add: discriminators_def)+

lemma encode_one_discriminator:
  "convertToFirestoreValue h v = Inr w \<Longrightarrow> one_discriminator w"
proof (induction h v arbitrary: w rule: convertToFirestoreValue.induct)
  case (1 h t)
  then show ?case
    by (cases t) (auto simp: one_discriminator_scalar simp del: one_discriminator.simps)
next
  case (2 h client path)
  then show ?case
    by (cases "getParentReference h client path")
       (auto simp: one_discriminator_scalar simp del: one_discriminator.simps)
next
  case (3 h s)
  then show ?case by (auto simp: one_discriminator_scalar simp del: one_discriminator.simps)
next
  case (4 h n)
  then show ?case
    by (cases "isInteger n")
       (auto simp: one_discriminator_scalar simp del: one_discriminator.simps isInteger.simps)
next
  case (5 h b)
  then show ?case by (auto simp: one_discriminator_scalar simp del: one_discriminator.simps)
next
  case (6 h)
  then show ?case by (auto simp: one_discriminator_scalar simp del: one_discriminator.simps)
next
  case (7 h)
  then show ?case by (auto simp: one_discriminator_scalar simp del: one_discriminator.simps)
next
  case (8 h xs)
  from "8.prems" obtain ws where ws: "mapE (convertToFirestoreValue h) xs = Inr ws"
    and w: "w = WObj [(''arrayValue'', WObj [(''values'', WArr ws)])]"
    by (auto split: sum.splits)
  have "list_all one_discriminator ws"
    unfolding list_all_iff
  proof
    fix y assume "y \<in> set ws"
    from mapE_values[OF ws this] obtain x
      where "x \<in> set xs" "convertToFirestoreValue h x = Inr y" by blast
    then show "one_discriminator y" by (rule "8.IH")
  qed
  with w show ?case by (simp only: one_discriminator_array)
next
  case (9 h kvs)
  show ?case
  proof (cases "isReferenceLiteral (JObj kvs)")
    case True
    with "9.prems" show ?thesis
      unfolding convertToFirestoreValue_JObj
      by (auto simp: one_discriminator_scalar simp del: one_discriminator.simps)
  next
    case False
    with "9.prems" obtain flds
      where f: "reduce_entries (convertToFirestoreValue h) kvs = Inr flds"
        and w: "w = WObj [(''mapValue'', WObj [(''fields'', WObj flds)])]"
      unfolding convertToFirestoreValue_JObj by (auto split: sum.splits)
    have "list_all (\<lambda>(k, w). one_discriminator w) flds"
      unfolding list_all_iff
    proof (clarify)
      fix k y assume "(k, y) \<in> set flds"
      from reduce_entries_entries[OF f this] obtain x
        where x: "(k, x) \<in> set kvs" "convertToFirestoreValue h x = Inr y" by blast
      show "one_discriminator y"
        by (rule "9.IH"[OF False geoPoint_shape_unreachable x(1) x(2)])
    qed
    with w show ?thesis by (simp only: one_discriminator_map)
  qed
next
  case (10 h d)
  then show ?case by (auto simp: one_discriminator_scalar simp del: one_discriminator.simps)
next
  case (11 h s)
  then show ?case by (auto simp: one_discriminator_scalar simp del: one_discriminator.simps)
qed

text \<open>The encoder returns exactly on the encodable values.\<close>

lemma encode_returns_iff: "(\<exists>w. convertToFirestoreValue h v = Inr w) \<longleftrightarrow> encodable h v"
proof (induction h v rule: convertToFirestoreValue.induct)
  case (1 h t)
  show ?case by (cases t) auto
next
  case (2 h client path)
  show ?case by (cases "getParentReference h client path") auto
next
  case (8 h xs)
  show ?case
  proof
    assume "\<exists>w. convertToFirestoreValue h (JArr xs) = Inr w"
    then obtain ws where ws: "mapE (convertToFirestoreValue h) xs = Inr ws"
      by (auto split: sum.splits)
    have "\<forall>x\<in>set xs. encodable h x"
    proof
      fix x assume x: "x \<in> set xs"
      from mapE_each[OF ws x] "8.IH"[OF x] show "encodable h x" by simp
    qed
    then show "encodable h (JArr xs)" by (simp add: list_all_iff)
  next
    assume "encodable h (JArr xs)"
    then have "\<And>x. x \<in> set xs \<Longrightarrow> \<exists>y. convertToFirestoreValue h x = Inr y"
      using "8.IH" by (simp add: list_all_iff)
    then have "\<exists>ws. mapE (convertToFirestoreValue h) xs = Inr ws"
      by (rule mapE_total)
    then obtain ws where "mapE (convertToFirestoreValue h) xs = Inr ws"
      by blast
    then show "\<exists>w. convertToFirestoreValue h (JArr xs) = Inr w" by simp
  qed
next
  case (9 h kvs)
  show ?case
  proof (cases "isReferenceLiteral (JObj kvs)")
    case True
    then obtain s where "kvs = [(''referenceValue'', JStr s)]"
      by (auto simp: isReferenceLiteral_iff)
    with True show ?thesis unfolding convertToFirestoreValue_JObj by simp
  next
    case False
    note IH = "9.IH"[OF False geoPoint_shape_unreachable]
    show ?thesis
    proof
      assume "\<exists>w. convertToFirestoreValue h (JObj kvs) = Inr w"
      with False obtain flds
        where f: "reduce_entries (convertToFirestoreValue h) kvs = Inr flds"
        unfolding convertToFirestoreValue_JObj by (auto split: sum.splits)
      have "\<forall>(k, x)\<in>set kvs. encodable h x"
      proof (clarify)
        fix k x assume x: "(k, x) \<in> set kvs"
        from reduce_entries_each[OF f x] IH[OF x] show "encodable h x" by simp
      qed
      then show "encodable h (JObj kvs)" by (simp add: list_all_iff)
    next
      assume "encodable h (JObj kvs)"
      then have "\<And>kv. kv \<in> set kvs \<Longrightarrow> \<exists>y. convertToFirestoreValue h (snd kv) = Inr y"
        using IH by (auto simp: list_all_iff)
      then have "\<exists>flds. reduce_entries (convertToFirestoreValue h) kvs = Inr flds"
        by (rule reduce_entries_total)
      then obtain flds
        where "reduce_entries (convertToFirestoreValue h) kvs = Inr flds" by blast
      with False show "\<exists>w. convertToFirestoreValue h (JObj kvs) = Inr w"
        unfolding convertToFirestoreValue_JObj by simp
    qed
  qed
qed simp_all

section \<open>The decoder's results\<close>

lemma decode_total: "FirestoreFieldValue w \<Longrightarrow> \<exists>v. convertFromFirestoreValue h w = Inr v"
proof (induction rule: FirestoreFieldValue.induct)
  case (mapValue flds)
  then have "\<And>kv. kv \<in> set flds \<Longrightarrow> \<exists>y. convertFromFirestoreValue h (snd kv) = Inr y"
    by (auto simp: list_all_iff)
  then have "\<exists>obj. reduce_entries (convertFromFirestoreValue h) flds = Inr obj"
    by (rule reduce_entries_total)
  then obtain obj
    where "reduce_entries (convertFromFirestoreValue h) flds = Inr obj" by blast
  then show ?case by (simp add: member_of_def)
next
  case (arrayValue ws)
  then have "\<And>x. x \<in> set ws \<Longrightarrow> \<exists>y. convertFromFirestoreValue h x = Inr y"
    by (simp add: list_all_iff)
  then have "\<exists>vs. mapE (convertFromFirestoreValue h) ws = Inr vs"
    by (rule mapE_total)
  then obtain vs where "mapE (convertFromFirestoreValue h) ws = Inr vs"
    by blast
  then show ?case by (simp add: member_of_def)
qed (simp_all add: js_Number_def new_Date_def)

lemma decode_unrecognized:
  "(\<forall>k\<in>set discriminators. map_of kvs k = None)
   \<Longrightarrow> convertFromFirestoreValue h (WObj kvs) = Inr JNull"
  by (simp add: discriminators_def member_of_def)

lemma decode_mapValue_no_fields:
  "map_of m ''fields'' = None
   \<Longrightarrow> convertFromFirestoreValue h (WObj [(''mapValue'', WObj m)]) = Inr JNull"
  by (simp add: member_of_def)

text \<open>
  The array branch of the two variants. With the member \<^verbatim>\<open>values\<close> an array, both
  decode its elements in order; without it, \<^verbatim>\<open>converter.ts\<close> falls through to
  \<^verbatim>\<open>return null\<close> and the second variant maps over \<^verbatim>\<open>[]\<close>.
\<close>

lemma decode_arrayValue:
  "convertFromFirestoreValue h (WObj [(''arrayValue'', WObj [(''values'', WArr ws)])])
   = (case mapE (convertFromFirestoreValue h) ws of Inl e \<Rightarrow> Inl e | Inr vs \<Rightarrow> Inr (JArr vs))"
  by (simp add: member_of_def)

lemma decode_arrayValue_part000:
  "convertFromFirestoreValue_part000 h (WObj [(''arrayValue'', WObj [(''values'', WArr ws)])])
   = (case mapE (convertFromFirestoreValue_part000 h) ws of
        Inl e \<Rightarrow> Inl e | Inr vs \<Rightarrow> Inr (JArr vs))"
  by (simp add: member_of_def)

lemma decode_arrayValue_no_values_part000:
  "map_of m ''values'' = None
   \<Longrightarrow> convertFromFirestoreValue_part000 h (WObj [(''arrayValue'', WObj m)]) = Inr (JArr [])"
  by (simp add: member_of_def)

section \<open>Resource names\<close>

lemma path_getDocumentId_segment:
  "CHR ''/'' \<notin> set seg \<Longrightarrow> path_getDocumentId (prefix @ CHR ''/'' # seg) = seg"
proof -
  assume a: "CHR ''/'' \<notin> set seg"
  have "takeWhile (\<lambda>c. c \<noteq> CHR ''/'') (rev seg @ CHR ''/'' # rev prefix)
        = rev seg @ takeWhile (\<lambda>c. c \<noteq> CHR ''/'') (CHR ''/'' # rev prefix)"
    by (rule takeWhile_append2) (use a in auto)
  then show ?thesis by (simp add: path_getDocumentId_def)
qed

lemma path_getDocumentId_no_slash:
  "CHR ''/'' \<notin> set path \<Longrightarrow> path_getDocumentId path = path"
proof -
  assume "CHR ''/'' \<notin> set path"
  then have "takeWhile (\<lambda>c. c \<noteq> CHR ''/'') (rev path) = rev path"
    by auto
  then show ?thesis unfolding path_getDocumentId_def by (simp only: rev_rev_ident)
qed

lemma path_getDocumentId_doc1:
  "path_getDocumentId ''projects/p/databases/(default)/documents/col/doc1'' = ''doc1''"
  by (simp add: path_getDocumentId_def)

section \<open>The claims\<close>

text \<open>
  C1. The claim: a plain object with the one key \<^verbatim>\<open>geoPointValue\<close>, whose value is an
  object with the two numeric keys \<^verbatim>\<open>latitude\<close> and \<^verbatim>\<open>longitude\<close>, passes through the
  encoder unchanged as a \<^verbatim>\<open>geoPointValue\<close>; with an extra top-level key it is encoded
  as a generic \<^verbatim>\<open>mapValue\<close>. The code does the second and not the first: the shape check
  of line 62 wants the inner object to have one key, so no value passes it, and
  \<^verbatim>\<open>{geoPointValue: {latitude: 35, longitude: 139}}\<close> is encoded as a map of maps, like
  the same object with an extra key.
\<close>

theorem geoPoint_literal_encoded_as_mapValue:
  "convertToFirestoreValue h
     (JObj [(''geoPointValue'',
             JObj [(''latitude'', JNum (Finite 35)), (''longitude'', JNum (Finite 139))])])
   = Inr (WObj [(''mapValue'', WObj [(''fields'', WObj
       [(''geoPointValue'', WObj [(''mapValue'', WObj [(''fields'', WObj
           [(''latitude'', WObj [(''integerValue'', WNum (Finite 35))]),
            (''longitude'', WObj [(''integerValue'', WNum (Finite 139))])])])])])])])
   \<and> convertToFirestoreValue h
     (JObj [(''geoPointValue'',
             JObj [(''latitude'', JNum (Finite 35)), (''longitude'', JNum (Finite 139))]),
            (''extra'', JNum (Finite 1))])
   = Inr (WObj [(''mapValue'', WObj [(''fields'', WObj
       [(''geoPointValue'', WObj [(''mapValue'', WObj [(''fields'', WObj
           [(''latitude'', WObj [(''integerValue'', WNum (Finite 35))]),
            (''longitude'', WObj [(''integerValue'', WNum (Finite 139))])])])]),
        (''extra'', WObj [(''integerValue'', WNum (Finite 1))])])])])
   \<and> \<not> isGeoPointLiteral v"
  by (simp add: geoPoint_shape_unreachable isReferenceLiteral_def reduce_entries_def)

text \<open>
  C2, as amended. For every native value \<open>v\<close> built from strings, numbers, booleans,
  null, valid Dates, arrays and objects of such values, the encoder returns a wire value
  and the decoder maps it back to \<open>v\<close>, on a host whose \<^verbatim>\<open>Date.parse\<close> reads back what
  its \<^verbatim>\<open>toISOString\<close> writes for the Dates of \<open>v\<close>. Numbers are equal as values (the
  integral double 5.0 is the number 5), Dates as instants.
\<close>

theorem decode_encode_roundtrip:
  "plain_native v \<Longrightarrow> dates_roundtrip h v
   \<Longrightarrow> \<exists>w. convertToFirestoreValue h v = Inr w \<and> convertFromFirestoreValue h w = Inr v"
proof (induction h v rule: convertToFirestoreValue.induct)
  case (1 h t)
  then show ?case by (cases t) (simp_all add: new_Date_def)
next
  case (4 h n)
  show ?case by (cases "isInteger n") (simp_all add: js_Number_def del: isInteger.simps)
next
  case (8 h xs)
  have "\<And>x. x \<in> set xs \<Longrightarrow>
          \<exists>w. convertToFirestoreValue h x = Inr w \<and> convertFromFirestoreValue h w = Inr x"
    using "8.IH" "8.prems" by (simp add: list_all_iff)
  then have "\<exists>ws. mapE (convertToFirestoreValue h) xs = Inr ws
      \<and> mapE (convertFromFirestoreValue h) ws = Inr xs"
    by (rule mapE_roundtrip)
  then obtain ws where "mapE (convertToFirestoreValue h) xs = Inr ws"
      "mapE (convertFromFirestoreValue h) ws = Inr xs" by blast
  then show ?case by (simp add: member_of_def)
next
  case (9 h kvs)
  show ?case
  proof (cases "isReferenceLiteral (JObj kvs)")
    case True
    then obtain s where "kvs = [(''referenceValue'', JStr s)]"
      by (auto simp: isReferenceLiteral_iff)
    with True show ?thesis unfolding convertToFirestoreValue_JObj by simp
  next
    case False
    from "9.prems" have d: "distinct (map fst kvs)" by simp
    have "\<And>kv. kv \<in> set kvs \<Longrightarrow>
          \<exists>w. convertToFirestoreValue h (snd kv) = Inr w
            \<and> convertFromFirestoreValue h w = Inr (snd kv)"
    proof -
      fix kv assume kv: "kv \<in> set kvs"
      then have "(fst kv, snd kv) \<in> set kvs" by simp
      moreover from kv "9.prems" have "plain_native (snd kv)" "dates_roundtrip h (snd kv)"
        by (auto simp: list_all_iff)
      ultimately show "\<exists>w. convertToFirestoreValue h (snd kv) = Inr w
            \<and> convertFromFirestoreValue h w = Inr (snd kv)"
        by (rule "9.IH"[OF False geoPoint_shape_unreachable])
    qed
    with d have "\<exists>flds. reduce_entries (convertToFirestoreValue h) kvs = Inr flds
        \<and> reduce_entries (convertFromFirestoreValue h) flds = Inr kvs"
      by (rule entries_roundtrip)
    then obtain flds where "reduce_entries (convertToFirestoreValue h) kvs = Inr flds"
        "reduce_entries (convertFromFirestoreValue h) flds = Inr kvs" by blast
    with False show ?thesis
      unfolding convertToFirestoreValue_JObj by (simp add: member_of_def)
  qed
qed simp_all

lemma ecma_date_example:
  "ecma_toISOString 1700000000123 = ''2023-11-14T22:13:20.123Z''"
  "ecma_Date_parse ''2023-11-14T22:13:20.123Z'' = Some 1700000000123"
proof -
  have c: "civil_from_days 19675 = (2023, 11, 14)" by code_simp
  have f: "days_from_civil 2023 11 14 = 19675" by code_simp
  show e: "ecma_toISOString 1700000000123 = ''2023-11-14T22:13:20.123Z''"
    by (simp add: ecma_toISOString_def c digits2_def digits3_def digits4_def digit_char_def)
  show "ecma_Date_parse ''2023-11-14T22:13:20.123Z'' = Some 1700000000123"
    by (simp add: ecma_Date_parse_def digits_value_def f e)
qed

theorem decode_encode_roundtrip_witness:
  "\<forall>h. plain_native
          (JObj [(''s'', JStr ''x''), (''n'', JNum (Finite 5)), (''d'', JNum (Finite (11 / 2))),
                 (''b'', JBool True), (''z'', JNull), (''t'', JDate (Some 1700000000123)),
                 (''a'', JArr [JNum (Finite 1), JStr ''b'', JNull]),
                 (''r'', JObj [(''referenceValue'', JStr ''projects/p'')])])
     \<and> (\<exists>w. convertToFirestoreValue
               (h\<lparr>toISOString := ecma_toISOString, Date_parse := ecma_Date_parse\<rparr>)
          (JObj [(''s'', JStr ''x''), (''n'', JNum (Finite 5)), (''d'', JNum (Finite (11 / 2))),
                 (''b'', JBool True), (''z'', JNull), (''t'', JDate (Some 1700000000123)),
                 (''a'', JArr [JNum (Finite 1), JStr ''b'', JNull]),
                 (''r'', JObj [(''referenceValue'', JStr ''projects/p'')])]) = Inr w
          \<and> convertFromFirestoreValue
               (h\<lparr>toISOString := ecma_toISOString, Date_parse := ecma_Date_parse\<rparr>) w
            = Inr (JObj [(''s'', JStr ''x''), (''n'', JNum (Finite 5)), (''d'', JNum (Finite (11 / 2))),
                 (''b'', JBool True), (''z'', JNull), (''t'', JDate (Some 1700000000123)),
                 (''a'', JArr [JNum (Finite 1), JStr ''b'', JNull]),
                 (''r'', JObj [(''referenceValue'', JStr ''projects/p'')])]))"
proof
  fix h :: host
  define h' where "h' = h\<lparr>toISOString := ecma_toISOString, Date_parse := ecma_Date_parse\<rparr>"
  define v where "v = JObj [(''s'', JStr ''x''), (''n'', JNum (Finite 5)), (''d'', JNum (Finite (11 / 2))),
                 (''b'', JBool True), (''z'', JNull), (''t'', JDate (Some 1700000000123)),
                 (''a'', JArr [JNum (Finite 1), JStr ''b'', JNull]),
                 (''r'', JObj [(''referenceValue'', JStr ''projects/p'')])]"
  have p: "plain_native v" by (simp add: v_def)
  have d: "dates_roundtrip h' v" by (simp add: v_def h'_def ecma_date_example)
  from p decode_encode_roundtrip[OF p d]
  show "plain_native
          (JObj [(''s'', JStr ''x''), (''n'', JNum (Finite 5)), (''d'', JNum (Finite (11 / 2))),
                 (''b'', JBool True), (''z'', JNull), (''t'', JDate (Some 1700000000123)),
                 (''a'', JArr [JNum (Finite 1), JStr ''b'', JNull]),
                 (''r'', JObj [(''referenceValue'', JStr ''projects/p'')])])
     \<and> (\<exists>w. convertToFirestoreValue
               (h\<lparr>toISOString := ecma_toISOString, Date_parse := ecma_Date_parse\<rparr>)
          (JObj [(''s'', JStr ''x''), (''n'', JNum (Finite 5)), (''d'', JNum (Finite (11 / 2))),
                 (''b'', JBool True), (''z'', JNull), (''t'', JDate (Some 1700000000123)),
                 (''a'', JArr [JNum (Finite 1), JStr ''b'', JNull]),
                 (''r'', JObj [(''referenceValue'', JStr ''projects/p'')])]) = Inr w
          \<and> convertFromFirestoreValue
               (h\<lparr>toISOString := ecma_toISOString, Date_parse := ecma_Date_parse\<rparr>) w
            = Inr (JObj [(''s'', JStr ''x''), (''n'', JNum (Finite 5)), (''d'', JNum (Finite (11 / 2))),
                 (''b'', JBool True), (''z'', JNull), (''t'', JDate (Some 1700000000123)),
                 (''a'', JArr [JNum (Finite 1), JStr ''b'', JNull]),
                 (''r'', JObj [(''referenceValue'', JStr ''projects/p'')])]))"
    unfolding v_def h'_def by blast
qed

text \<open>
  The claim as stated fails on a Date: an invalid Date (\<^verbatim>\<open>new Date(NaN)\<close>) is a Date,
  and the encoder throws a RangeError on it, so there is nothing to decode.
\<close>

theorem invalid_date_not_encoded:
  "plain_native (JDate None)
   \<and> (\<forall>h. convertToFirestoreValue h (JDate None) = Inl RangeError)
   \<and> (\<forall>h. \<not> (\<exists>w. convertToFirestoreValue h (JDate None) = Inr w
                \<and> convertFromFirestoreValue h w = Inr (JDate None)))"
  by simp

text \<open>
  C3. The claim: on a wire value with the key \<^verbatim>\<open>arrayValue\<close> the decoder decodes the
  elements of \<^verbatim>\<open>values\<close> in order, and returns an empty sequence when \<^verbatim>\<open>values\<close> is
  absent. \<^verbatim>\<open>converter.ts\<close> guards the branch with
  \<^verbatim>\<open>firestoreValue.arrayValue.values\<close> and returns null on \<^verbatim>\<open>{arrayValue: {}}\<close>; the
  second variant of the converter returns the empty array there.
\<close>

theorem arrayValue_without_values_decodes_to_null:
  "convertFromFirestoreValue h (WObj [(''arrayValue'', WObj [])]) = Inr JNull
   \<and> convertFromFirestoreValue_part000 h (WObj [(''arrayValue'', WObj [])]) = Inr (JArr [])"
  by (simp add: member_of_def)

text \<open>
  C4. Whenever the encoder returns, the wire value it returns has exactly one of the ten
  discriminator keys, and so has every wire value nested in the fields of a
  \<^verbatim>\<open>mapValue\<close> and the elements of an \<^verbatim>\<open>arrayValue\<close>. It returns on every native
  value that holds no invalid Date and no \<^verbatim>\<open>DocumentReference\<close> whose resolution throws
  (and on no other).
\<close>

theorem encoder_one_discriminator:
  "(\<forall>w. convertToFirestoreValue h v = Inr w \<longrightarrow> one_discriminator w)
   \<and> ((\<exists>w. convertToFirestoreValue h v = Inr w) \<longleftrightarrow> encodable h v)"
  using encode_one_discriminator[of h v] encode_returns_iff[of h v] by blast

theorem encoder_one_discriminator_witness:
  "\<forall>h. convertToFirestoreValue h (JObj [(''a'', JArr [JNum (Finite 1), JStr ''b'', JNull])])
        = Inr (WObj [(''mapValue'', WObj [(''fields'', WObj [(''a'', WObj [(''arrayValue'',
            WObj [(''values'', WArr [WObj [(''integerValue'', WNum (Finite 1))],
                                    WObj [(''stringValue'', WStr ''b'')],
                                    WObj [(''nullValue'', WNull)]])])])])])])
     \<and> one_discriminator
         (WObj [(''mapValue'', WObj [(''fields'', WObj [(''a'', WObj [(''arrayValue'',
            WObj [(''values'', WArr [WObj [(''integerValue'', WNum (Finite 1))],
                                    WObj [(''stringValue'', WStr ''b'')],
                                    WObj [(''nullValue'', WNull)]])])])])])])"
proof
  fix h :: host
  have e: "convertToFirestoreValue h (JObj [(''a'', JArr [JNum (Finite 1), JStr ''b'', JNull])])
        = Inr (WObj [(''mapValue'', WObj [(''fields'', WObj [(''a'', WObj [(''arrayValue'',
            WObj [(''values'', WArr [WObj [(''integerValue'', WNum (Finite 1))],
                                    WObj [(''stringValue'', WStr ''b'')],
                                    WObj [(''nullValue'', WNull)]])])])])])])"
    by (simp add: geoPoint_shape_unreachable isReferenceLiteral_def reduce_entries_def)
  with encoder_one_discriminator[of h "JObj [(''a'', JArr [JNum (Finite 1), JStr ''b'', JNull])]"]
  show "convertToFirestoreValue h (JObj [(''a'', JArr [JNum (Finite 1), JStr ''b'', JNull])])
        = Inr (WObj [(''mapValue'', WObj [(''fields'', WObj [(''a'', WObj [(''arrayValue'',
            WObj [(''values'', WArr [WObj [(''integerValue'', WNum (Finite 1))],
                                    WObj [(''stringValue'', WStr ''b'')],
                                    WObj [(''nullValue'', WNull)]])])])])])])
     \<and> one_discriminator
         (WObj [(''mapValue'', WObj [(''fields'', WObj [(''a'', WObj [(''arrayValue'',
            WObj [(''values'', WArr [WObj [(''integerValue'', WNum (Finite 1))],
                                    WObj [(''stringValue'', WStr ''b'')],
                                    WObj [(''nullValue'', WNull)]])])])])])])"
    by blast
qed

text \<open>
  C5. The encoder maps a number to \<^verbatim>\<open>integerValue\<close> exactly when
  \<^verbatim>\<open>Number.isInteger\<close> holds of it, that is when it is finite and an integer, and to
  \<^verbatim>\<open>doubleValue\<close> otherwise: 5 and 5.0 (the same number) give
  \<^verbatim>\<open>{integerValue: 5}\<close>, 5.5 gives \<^verbatim>\<open>{doubleValue: 5.5}\<close>.
\<close>

theorem number_integer_or_double:
  "convertToFirestoreValue h (JNum n)
     = Inr (WObj [(if isInteger n then ''integerValue'' else ''doubleValue'', WNum n)])
   \<and> (isInteger (Finite q) \<longleftrightarrow> q \<in> \<int>)
   \<and> \<not> isInteger NaN \<and> \<not> isInteger PosInfinity \<and> \<not> isInteger NegInfinity
   \<and> convertToFirestoreValue h (JNum (Finite 5))
       = Inr (WObj [(''integerValue'', WNum (Finite 5))])
   \<and> convertToFirestoreValue h (JNum (Finite (11 / 2)))
       = Inr (WObj [(''doubleValue'', WNum (Finite (11 / 2)))])
   \<and> convertToFirestoreValue h (JNum (Finite (50 / 10)))
       = Inr (WObj [(''integerValue'', WNum (Finite 5))])"
  by (simp add: isInteger_Finite del: isInteger.simps(1))

text \<open>
  C6. The encoder returns \<^verbatim>\<open>{nullValue: null}\<close> on null and on undefined alike.
\<close>

theorem null_and_undefined_collapse:
  "convertToFirestoreValue h JNull = Inr (WObj [(''nullValue'', WNull)])
   \<and> convertToFirestoreValue h JUndefined = Inr (WObj [(''nullValue'', WNull)])"
  by simp

text \<open>
  C7, as amended. The decoder returns, and does not raise, on every value of the declared
  type \<^verbatim>\<open>FirestoreFieldValue\<close>, and it returns null on every object that has none of
  the ten discriminator keys (the empty object among them), on a \<^verbatim>\<open>mapValue\<close> without
  the member \<^verbatim>\<open>fields\<close>, and on an array.
\<close>

theorem decoder_total_and_null_on_unrecognized:
  "(FirestoreFieldValue w \<longrightarrow> (\<exists>v. convertFromFirestoreValue h w = Inr v))
   \<and> ((\<forall>k\<in>set discriminators. map_of kvs k = None)
        \<longrightarrow> convertFromFirestoreValue h (WObj kvs) = Inr JNull)
   \<and> (map_of m ''fields'' = None
        \<longrightarrow> convertFromFirestoreValue h (WObj [(''mapValue'', WObj m)]) = Inr JNull)
   \<and> convertFromFirestoreValue h (WArr xs) = Inr JNull"
  using decode_total[of w h] decode_unrecognized[of kvs h] decode_mapValue_no_fields[of m h]
  by simp

theorem decoder_total_and_null_on_unrecognized_witness:
  "\<forall>h. (\<exists>v. convertFromFirestoreValue h
             (WObj [(''mapValue'', WObj [(''fields'', WObj
                [(''n'', WObj [(''stringValue'', WStr ''x'')]),
                 (''l'', WObj [(''arrayValue'', WObj [(''values'', WArr
                    [WObj [(''integerValue'', WNum (Finite 1))]])])])])])]) = Inr v)
     \<and> convertFromFirestoreValue h (WObj []) = Inr JNull
     \<and> convertFromFirestoreValue h (WObj [(''unknownValue'', WStr ''x'')]) = Inr JNull
     \<and> convertFromFirestoreValue h (WObj [(''mapValue'', WObj [])]) = Inr JNull"
proof
  fix h :: host
  have t: "FirestoreFieldValue
             (WObj [(''mapValue'', WObj [(''fields'', WObj
                [(''n'', WObj [(''stringValue'', WStr ''x'')]),
                 (''l'', WObj [(''arrayValue'', WObj [(''values'', WArr
                    [WObj [(''integerValue'', WNum (Finite 1))]])])])])])])"
    by (simp add: FirestoreFieldValue.intros)
  have u: "\<forall>k\<in>set discriminators. map_of [(''unknownValue'', WStr ''x'')] k = None"
    by (simp add: discriminators_def)
  have e: "\<forall>k\<in>set discriminators. map_of ([] :: (string \<times> wire) list) k = None"
    by simp
  have n: "map_of ([] :: (string \<times> wire) list) ''fields'' = None" by simp
  from t u e n
    decoder_total_and_null_on_unrecognized[of
      "WObj [(''mapValue'', WObj [(''fields'', WObj
                [(''n'', WObj [(''stringValue'', WStr ''x'')]),
                 (''l'', WObj [(''arrayValue'', WObj [(''values'', WArr
                    [WObj [(''integerValue'', WNum (Finite 1))]])])])])])]"
      h "[(''unknownValue'', WStr ''x'')]" "[]"]
    decoder_total_and_null_on_unrecognized[of "WNull" h "[]" "[]"]
  show "(\<exists>v. convertFromFirestoreValue h
             (WObj [(''mapValue'', WObj [(''fields'', WObj
                [(''n'', WObj [(''stringValue'', WStr ''x'')]),
                 (''l'', WObj [(''arrayValue'', WObj [(''values'', WArr
                    [WObj [(''integerValue'', WNum (Finite 1))]])])])])])]) = Inr v)
     \<and> convertFromFirestoreValue h (WObj []) = Inr JNull
     \<and> convertFromFirestoreValue h (WObj [(''unknownValue'', WStr ''x'')]) = Inr JNull
     \<and> convertFromFirestoreValue h (WObj [(''mapValue'', WObj [])]) = Inr JNull"
    by blast
qed

text \<open>
  The claim as stated fails outside the declared type: the decoder reads
  \<^verbatim>\<open>firestoreValue.mapValue.fields\<close> and calls \<^verbatim>\<open>values.map\<close> unchecked, so it
  raises a TypeError on \<^verbatim>\<open>{mapValue: null}\<close>, on \<^verbatim>\<open>{arrayValue: {values: 5}}\<close>, on
  \<^verbatim>\<open>{arrayValue: []}\<close>, on an array with the element null, and on null itself, which
  has no discriminator key and is not decoded to null.
\<close>

theorem decoder_raises_outside_declared_type:
  "\<forall>h. convertFromFirestoreValue h (WObj [(''mapValue'', WNull)]) = Inl TypeError
     \<and> convertFromFirestoreValue h (WObj [(''arrayValue'', WObj [(''values'', WNum (Finite 5))])])
         = Inl TypeError
     \<and> convertFromFirestoreValue h (WObj [(''arrayValue'', WArr [])]) = Inl TypeError
     \<and> convertFromFirestoreValue h
           (WObj [(''arrayValue'', WObj [(''values'', WArr [WNull])])]) = Inl TypeError
     \<and> convertFromFirestoreValue h WNull = Inl TypeError"
  by (simp add: member_of_def)

text \<open>
  C8, as amended. With \<^verbatim>\<open>getDocumentId\<close> returning the last \<^verbatim>\<open>/\<close>-delimited
  segment of the resource name: when \<^verbatim>\<open>fields\<close> is absent the document decoder
  returns the object with the single member \<^verbatim>\<open>id\<close>; when it is present the decoder
  returns exactly when the value decoder returns on every field, and then the keys of
  the result are those of \<^verbatim>\<open>fields\<close> and \<^verbatim>\<open>id\<close>, the member \<^verbatim>\<open>id\<close> is that last
  segment, and every field not named \<^verbatim>\<open>id\<close> holds its decoded value.
\<close>

theorem document_decoded_fields_and_id:
  assumes gid: "getDocumentId h = path_getDocumentId"
  shows "(response_fields doc = None \<longrightarrow>
           convertFromFirestoreDocument h doc
             = Inr (JObj [(''id'', JStr (path_getDocumentId (response_name doc)))]))
   \<and> (\<forall>flds. response_fields doc = Some flds \<and> distinct (map fst flds) \<longrightarrow>
         ((\<exists>out. convertFromFirestoreDocument h doc = Inr out)
            \<longleftrightarrow> list_all (\<lambda>(k, w). \<exists>v. convertFromFirestoreValue h w = Inr v) flds)
       \<and> (\<forall>out. convertFromFirestoreDocument h doc = Inr out \<longrightarrow>
            (\<exists>obj. out = JObj obj
               \<and> fst ` set obj = insert ''id'' (fst ` set flds)
               \<and> map_of obj ''id'' = Some (JStr (path_getDocumentId (response_name doc)))
               \<and> list_all (\<lambda>(k, w). k \<noteq> ''id'' \<longrightarrow>
                    (\<exists>v. convertFromFirestoreValue h w = Inr v \<and> map_of obj k = Some v))
                    flds)))
   \<and> (CHR ''/'' \<notin> set seg \<longrightarrow> path_getDocumentId (prefix @ CHR ''/'' # seg) = seg)"
proof (intro conjI allI impI)
  assume "response_fields doc = None"
  then show "convertFromFirestoreDocument h doc
             = Inr (JObj [(''id'', JStr (path_getDocumentId (response_name doc)))])"
    by (simp add: convertFromFirestoreDocument_def gid)
next
  fix flds
  assume a: "response_fields doc = Some flds \<and> distinct (map fst flds)"
  show "(\<exists>out. convertFromFirestoreDocument h doc = Inr out)
            \<longleftrightarrow> list_all (\<lambda>(k, w). \<exists>v. convertFromFirestoreValue h w = Inr v) flds"
  proof
    assume "\<exists>out. convertFromFirestoreDocument h doc = Inr out"
    with a obtain result
      where f: "reduce_entries (convertFromFirestoreValue h) flds = Inr result"
      by (auto simp: convertFromFirestoreDocument_def split: sum.splits)
    show "list_all (\<lambda>(k, w). \<exists>v. convertFromFirestoreValue h w = Inr v) flds"
      unfolding list_all_iff
    proof (clarify)
      fix k w assume "(k, w) \<in> set flds"
      from reduce_entries_each[OF f this]
      show "\<exists>v. convertFromFirestoreValue h w = Inr v" .
    qed
  next
    assume "list_all (\<lambda>(k, w). \<exists>v. convertFromFirestoreValue h w = Inr v) flds"
    then have "\<And>kv. kv \<in> set flds \<Longrightarrow> \<exists>y. convertFromFirestoreValue h (snd kv) = Inr y"
      by (auto simp: list_all_iff)
    then have "\<exists>result. reduce_entries (convertFromFirestoreValue h) flds = Inr result"
      by (rule reduce_entries_total)
    with a show "\<exists>out. convertFromFirestoreDocument h doc = Inr out"
      by (auto simp: convertFromFirestoreDocument_def)
  qed
next
  fix flds out
  assume a: "response_fields doc = Some flds \<and> distinct (map fst flds)"
    and r: "convertFromFirestoreDocument h doc = Inr out"
  define gidv where "gidv = JStr (path_getDocumentId (response_name doc))"
  from a r obtain result
    where f: "reduce_entries (convertFromFirestoreValue h) flds = Inr result"
      and out: "out = JObj (AList.update ''id'' gidv result)"
    by (auto simp: convertFromFirestoreDocument_def gid gidv_def split: sum.splits)
  from a have d: "distinct (map fst flds)" by simp
  from f have l:
    "list_all2 (\<lambda>kv r. fst r = fst kv \<and> convertFromFirestoreValue h (snd kv) = Inr (snd r))
       flds result"
    by (simp add: reduce_entries_Inr_iff[OF d])
  have keys: "fst ` set (AList.update ''id'' gidv result) = insert ''id'' (fst ` set flds)"
    using reduce_entries_keys[OF f] by (simp add: keys_update)
  have each: "list_all (\<lambda>(k, w). k \<noteq> ''id'' \<longrightarrow>
                    (\<exists>v. convertFromFirestoreValue h w = Inr v
                       \<and> map_of (AList.update ''id'' gidv result) k = Some v)) flds"
    unfolding list_all_iff
  proof (clarify)
    fix k w assume kw: "(k, w) \<in> set flds" and ne: "k \<noteq> ''id''"
    from list_all2_entries_map_of[OF l d kw] obtain v
      where "convertFromFirestoreValue h w = Inr v" "map_of result k = Some v" by blast
    with ne show "\<exists>v. convertFromFirestoreValue h w = Inr v
                       \<and> map_of (AList.update ''id'' gidv result) k = Some v"
      by (simp add: map_of_update_other)
  qed
  from out keys each
  show "\<exists>obj. out = JObj obj
               \<and> fst ` set obj = insert ''id'' (fst ` set flds)
               \<and> map_of obj ''id'' = Some (JStr (path_getDocumentId (response_name doc)))
               \<and> list_all (\<lambda>(k, w). k \<noteq> ''id'' \<longrightarrow>
                    (\<exists>v. convertFromFirestoreValue h w = Inr v \<and> map_of obj k = Some v))
                    flds"
    by (auto simp: map_of_update_same gidv_def)
next
  assume "CHR ''/'' \<notin> set seg"
  then show "path_getDocumentId (prefix @ CHR ''/'' # seg) = seg"
    by (rule path_getDocumentId_segment)
qed

theorem document_decoded_fields_and_id_witness:
  "\<forall>h. convertFromFirestoreDocument (h\<lparr>getDocumentId := path_getDocumentId\<rparr>)
          \<lparr>response_name = ''projects/p/databases/(default)/documents/col/doc1'',
           response_fields = None, response_createTime = None, response_updateTime = None\<rparr>
        = Inr (JObj [(''id'', JStr ''doc1'')])
     \<and> (\<exists>obj. convertFromFirestoreDocument (h\<lparr>getDocumentId := path_getDocumentId\<rparr>)
          \<lparr>response_name = ''projects/p/databases/(default)/documents/col/doc1'',
           response_fields = Some [(''n'', WObj [(''stringValue'', WStr ''x'')])],
           response_createTime = None, response_updateTime = None\<rparr> = Inr (JObj obj)
          \<and> fst ` set obj = {''id'', ''n''}
          \<and> map_of obj ''id'' = Some (JStr ''doc1'')
          \<and> map_of obj ''n'' = Some (JStr ''x''))"
proof
  fix h :: host
  define h' where "h' = h\<lparr>getDocumentId := path_getDocumentId\<rparr>"
  define d1 where "d1 = \<lparr>response_name = ''projects/p/databases/(default)/documents/col/doc1'',
           response_fields = None, response_createTime = None, response_updateTime = None\<rparr>"
  define d2 where "d2 = \<lparr>response_name = ''projects/p/databases/(default)/documents/col/doc1'',
           response_fields = Some [(''n'', WObj [(''stringValue'', WStr ''x'')])],
           response_createTime = None, response_updateTime = None\<rparr>"
  have gid: "getDocumentId h' = path_getDocumentId" by (simp add: h'_def)
  note A = document_decoded_fields_and_id[OF gid, where doc = d1, THEN conjunct1, rule_format]
  have first: "convertFromFirestoreDocument h' d1 = Inr (JObj [(''id'', JStr ''doc1'')])"
    using A by (simp add: d1_def path_getDocumentId_doc1)
  have dec: "convertFromFirestoreValue h' (WObj [(''stringValue'', WStr ''x'')]) = Inr (JStr ''x'')"
    by simp
  have flds: "response_fields d2 = Some [(''n'', WObj [(''stringValue'', WStr ''x'')])]
      \<and> distinct (map fst [(''n'', WObj [(''stringValue'', WStr ''x'')])])"
    by (simp add: d2_def)
  have all: "list_all (\<lambda>(k, w). \<exists>v. convertFromFirestoreValue h' w = Inr v)
      [(''n'', WObj [(''stringValue'', WStr ''x'')])]"
    by (simp add: dec)
  note B = document_decoded_fields_and_id[OF gid, where doc = d2, THEN conjunct2,
      THEN conjunct1, rule_format, OF flds]
  from B[THEN conjunct1] all have "\<exists>out. convertFromFirestoreDocument h' d2 = Inr out"
    by (rule iffD2)
  then obtain out where out: "convertFromFirestoreDocument h' d2 = Inr out" ..
  from B[THEN conjunct2, rule_format, OF out]
  obtain obj where obj: "out = JObj obj"
    "fst ` set obj = insert ''id'' (fst ` set [(''n'', WObj [(''stringValue'', WStr ''x'')])])"
    "map_of obj ''id'' = Some (JStr (path_getDocumentId (response_name d2)))"
    "list_all (\<lambda>(k, w). k \<noteq> ''id'' \<longrightarrow>
        (\<exists>v. convertFromFirestoreValue h' w = Inr v \<and> map_of obj k = Some v))
        [(''n'', WObj [(''stringValue'', WStr ''x'')])]"
    by (elim exE conjE)
  from obj(4) dec have "map_of obj ''n'' = Some (JStr ''x'')" by simp
  moreover from obj(3) have "map_of obj ''id'' = Some (JStr ''doc1'')"
    by (simp add: d2_def path_getDocumentId_doc1)
  moreover from obj(2) have "fst ` set obj = {''id'', ''n''}" by simp
  ultimately have second: "\<exists>obj. convertFromFirestoreDocument h' d2 = Inr (JObj obj)
          \<and> fst ` set obj = {''id'', ''n''}
          \<and> map_of obj ''id'' = Some (JStr ''doc1'')
          \<and> map_of obj ''n'' = Some (JStr ''x'')"
    using out obj(1) by blast
  from first second
  show "convertFromFirestoreDocument (h\<lparr>getDocumentId := path_getDocumentId\<rparr>)
          \<lparr>response_name = ''projects/p/databases/(default)/documents/col/doc1'',
           response_fields = None, response_createTime = None, response_updateTime = None\<rparr>
        = Inr (JObj [(''id'', JStr ''doc1'')])
     \<and> (\<exists>obj. convertFromFirestoreDocument (h\<lparr>getDocumentId := path_getDocumentId\<rparr>)
          \<lparr>response_name = ''projects/p/databases/(default)/documents/col/doc1'',
           response_fields = Some [(''n'', WObj [(''stringValue'', WStr ''x'')])],
           response_createTime = None, response_updateTime = None\<rparr> = Inr (JObj obj)
          \<and> fst ` set obj = {''id'', ''n''}
          \<and> map_of obj ''id'' = Some (JStr ''doc1'')
          \<and> map_of obj ''n'' = Some (JStr ''x''))"
    unfolding h'_def d1_def d2_def by blast
qed

text \<open>
  The claim as stated fails on a document with a field named \<^verbatim>\<open>id\<close>: the field
  decodes to the string x, and the result holds the identifier of the resource name
  under \<^verbatim>\<open>id\<close> and the decoded field nowhere.
\<close>

theorem field_named_id_is_not_kept:
  "\<forall>h. convertFromFirestoreValue h (WObj [(''stringValue'', WStr ''x'')]) = Inr (JStr ''x'')
     \<and> convertFromFirestoreDocument (h\<lparr>getDocumentId := path_getDocumentId\<rparr>)
          \<lparr>response_name = ''projects/p/databases/(default)/documents/col/doc1'',
           response_fields = Some [(''id'', WObj [(''stringValue'', WStr ''x'')])],
           response_createTime = None, response_updateTime = None\<rparr>
        = Inr (JObj [(''id'', JStr ''doc1'')])
     \<and> JStr ''doc1'' \<noteq> JStr ''x''"
  by (simp add: convertFromFirestoreDocument_def reduce_entries_def path_getDocumentId_doc1)

text \<open>
  C9. For an object \<open>data\<close> (its keys distinct), the document encoder returns exactly
  when the value encoder returns on every value, and then the \<^verbatim>\<open>fields\<close> of the
  document have the keys of \<open>data\<close>, in the same order, each with the encoded value of
  the input under that key.
\<close>

theorem document_fields_match_input:
  "distinct (map fst data) \<Longrightarrow>
     ((\<exists>doc. convertToFirestoreDocument h data = Inr doc)
        \<longleftrightarrow> list_all (\<lambda>(k, v). encodable h v) data)
   \<and> (\<forall>doc. convertToFirestoreDocument h data = Inr doc \<longrightarrow>
          map fst (document_fields doc) = map fst data
        \<and> list_all2 (\<lambda>(k, v) (k', w). k' = k \<and> convertToFirestoreValue h v = Inr w)
             data (document_fields doc))"
proof (intro conjI allI impI)
  assume d: "distinct (map fst data)"
  show "(\<exists>doc. convertToFirestoreDocument h data = Inr doc)
        \<longleftrightarrow> list_all (\<lambda>(k, v). encodable h v) data"
  proof
    assume "\<exists>doc. convertToFirestoreDocument h data = Inr doc"
    then obtain flds where f: "reduce_entries (convertToFirestoreValue h) data = Inr flds"
      by (auto simp: convertToFirestoreDocument_def split: sum.splits)
    show "list_all (\<lambda>(k, v). encodable h v) data"
      unfolding list_all_iff
    proof (clarify)
      fix k x assume "(k, x) \<in> set data"
      from reduce_entries_each[OF f this] show "encodable h x"
        by (simp add: encode_returns_iff)
    qed
  next
    assume "list_all (\<lambda>(k, v). encodable h v) data"
    then have "\<And>kv. kv \<in> set data \<Longrightarrow> \<exists>y. convertToFirestoreValue h (snd kv) = Inr y"
      by (auto simp: list_all_iff encode_returns_iff)
    then have "\<exists>flds. reduce_entries (convertToFirestoreValue h) data = Inr flds"
      by (rule reduce_entries_total)
    then show "\<exists>doc. convertToFirestoreDocument h data = Inr doc"
      by (auto simp: convertToFirestoreDocument_def)
  qed
next
  fix doc
  assume d: "distinct (map fst data)" and r: "convertToFirestoreDocument h data = Inr doc"
  from r have f: "reduce_entries (convertToFirestoreValue h) data = Inr (document_fields doc)"
    by (auto simp: convertToFirestoreDocument_def split: sum.splits)
  then have l:
    "list_all2 (\<lambda>kv r. fst r = fst kv \<and> convertToFirestoreValue h (snd kv) = Inr (snd r))
       data (document_fields doc)"
    by (simp add: reduce_entries_Inr_iff[OF d])
  from f d show "map fst (document_fields doc) = map fst data"
    by (simp add: reduce_entries_distinct mapE_on_value_keys)
  from l show "list_all2 (\<lambda>(k, v) (k', w). k' = k \<and> convertToFirestoreValue h v = Inr w)
             data (document_fields doc)"
    by (rule list_all2_mono) auto
qed

theorem document_fields_match_input_witness:
  "\<forall>h. distinct (map fst [(''n'', JStr ''x''), (''k'', JNum (Finite 5))])
     \<and> (\<exists>doc. convertToFirestoreDocument h [(''n'', JStr ''x''), (''k'', JNum (Finite 5))]
              = Inr doc
          \<and> map fst (document_fields doc) = [''n'', ''k'']
          \<and> list_all2 (\<lambda>(k, v) (k', w). k' = k \<and> convertToFirestoreValue h v = Inr w)
               [(''n'', JStr ''x''), (''k'', JNum (Finite 5))] (document_fields doc))"
proof
  fix h :: host
  have d: "distinct (map fst [(''n'', JStr ''x''), (''k'', JNum (Finite 5))])" by simp
  have e: "list_all (\<lambda>(k, v). encodable h v) [(''n'', JStr ''x''), (''k'', JNum (Finite 5))]"
    by simp
  from document_fields_match_input[OF d, of h] e
  obtain doc where doc:
    "convertToFirestoreDocument h [(''n'', JStr ''x''), (''k'', JNum (Finite 5))] = Inr doc"
    by blast
  with document_fields_match_input[OF d, of h]
  have "map fst (document_fields doc) = map fst [(''n'', JStr ''x''), (''k'', JNum (Finite 5))]"
    and "list_all2 (\<lambda>(k, v) (k', w). k' = k \<and> convertToFirestoreValue h v = Inr w)
               [(''n'', JStr ''x''), (''k'', JNum (Finite 5))] (document_fields doc)"
    by blast+
  with d doc
  show "distinct (map fst [(''n'', JStr ''x''), (''k'', JNum (Finite 5))])
     \<and> (\<exists>doc. convertToFirestoreDocument h [(''n'', JStr ''x''), (''k'', JNum (Finite 5))]
              = Inr doc
          \<and> map fst (document_fields doc) = [''n'', ''k'']
          \<and> list_all2 (\<lambda>(k, v) (k', w). k' = k \<and> convertToFirestoreValue h v = Inr w)
               [(''n'', JStr ''x''), (''k'', JNum (Finite 5))] (document_fields doc))"
    by auto
qed

text \<open>
  C10. Whatever the fields of a wire document are, a field named \<^verbatim>\<open>id\<close> among them or
  not, the member \<^verbatim>\<open>id\<close> of the object the document decoder returns is the
  identifier that \<^verbatim>\<open>getDocumentId\<close> extracts from the resource name, in both variants
  of the converter. Each variant returns the object with the single member \<^verbatim>\<open>id\<close>
  when \<^verbatim>\<open>fields\<close> is absent, and otherwise returns exactly when its value decoder
  returns on every field.
\<close>

theorem id_is_from_resource_name:
  "(\<forall>out. convertFromFirestoreDocument h doc = Inr out \<longrightarrow>
       js_get out ''id'' = JStr (getDocumentId h (response_name doc)))
   \<and> (\<forall>out. convertFromFirestoreDocument_part000 h doc = Inr out \<longrightarrow>
       js_get out ''id'' = JStr (getDocumentId h (response_name doc)))
   \<and> (response_fields doc = None \<longrightarrow>
         convertFromFirestoreDocument h doc
           = Inr (JObj [(''id'', JStr (getDocumentId h (response_name doc)))])
       \<and> convertFromFirestoreDocument_part000 h doc
           = Inr (JObj [(''id'', JStr (getDocumentId h (response_name doc)))]))
   \<and> (\<forall>flds. response_fields doc = Some flds \<longrightarrow>
         ((\<exists>out. convertFromFirestoreDocument h doc = Inr out)
            \<longleftrightarrow> list_all (\<lambda>(k, w). \<exists>v. convertFromFirestoreValue h w = Inr v) flds)
       \<and> ((\<exists>out. convertFromFirestoreDocument_part000 h doc = Inr out)
            \<longleftrightarrow> list_all (\<lambda>(k, w). \<exists>v. convertFromFirestoreValue_part000 h w = Inr v)
                  flds))"
proof (intro conjI allI impI)
  fix out
  assume "convertFromFirestoreDocument h doc = Inr out"
  then show "js_get out ''id'' = JStr (getDocumentId h (response_name doc))"
    by (auto simp: convertFromFirestoreDocument_def map_of_update_same
          split: option.splits sum.splits)
next
  fix out
  assume "convertFromFirestoreDocument_part000 h doc = Inr out"
  then show "js_get out ''id'' = JStr (getDocumentId h (response_name doc))"
    by (auto simp: convertFromFirestoreDocument_part000_def map_of_update_same
          split: option.splits sum.splits)
next
  assume "response_fields doc = None"
  then show "convertFromFirestoreDocument h doc
           = Inr (JObj [(''id'', JStr (getDocumentId h (response_name doc)))])"
    by (simp add: convertFromFirestoreDocument_def)
next
  assume "response_fields doc = None"
  then show "convertFromFirestoreDocument_part000 h doc
           = Inr (JObj [(''id'', JStr (getDocumentId h (response_name doc)))])"
    by (simp add: convertFromFirestoreDocument_part000_def)
next
  fix flds
  assume a: "response_fields doc = Some flds"
  show "(\<exists>out. convertFromFirestoreDocument h doc = Inr out)
            \<longleftrightarrow> list_all (\<lambda>(k, w). \<exists>v. convertFromFirestoreValue h w = Inr v) flds"
  proof
    assume "\<exists>out. convertFromFirestoreDocument h doc = Inr out"
    with a obtain result
      where f: "reduce_entries (convertFromFirestoreValue h) flds = Inr result"
      by (auto simp: convertFromFirestoreDocument_def split: sum.splits)
    show "list_all (\<lambda>(k, w). \<exists>v. convertFromFirestoreValue h w = Inr v) flds"
      unfolding list_all_iff
    proof (clarify)
      fix k w assume "(k, w) \<in> set flds"
      from reduce_entries_each[OF f this]
      show "\<exists>v. convertFromFirestoreValue h w = Inr v" .
    qed
  next
    assume "list_all (\<lambda>(k, w). \<exists>v. convertFromFirestoreValue h w = Inr v) flds"
    then have "\<And>kv. kv \<in> set flds \<Longrightarrow> \<exists>y. convertFromFirestoreValue h (snd kv) = Inr y"
      by (auto simp: list_all_iff)
    then have "\<exists>result. reduce_entries (convertFromFirestoreValue h) flds = Inr result"
      by (rule reduce_entries_total)
    with a show "\<exists>out. convertFromFirestoreDocument h doc = Inr out"
      by (auto simp: convertFromFirestoreDocument_def)
  qed
next
  fix flds
  assume a: "response_fields doc = Some flds"
  show "(\<exists>out. convertFromFirestoreDocument_part000 h doc = Inr out)
            \<longleftrightarrow> list_all (\<lambda>(k, w). \<exists>v. convertFromFirestoreValue_part000 h w = Inr v) flds"
  proof
    assume "\<exists>out. convertFromFirestoreDocument_part000 h doc = Inr out"
    with a obtain result
      where f: "reduce_entries (convertFromFirestoreValue_part000 h) flds = Inr result"
      by (auto simp: convertFromFirestoreDocument_part000_def split: sum.splits)
    show "list_all (\<lambda>(k, w). \<exists>v. convertFromFirestoreValue_part000 h w = Inr v) flds"
      unfolding list_all_iff
    proof (clarify)
      fix k w assume "(k, w) \<in> set flds"
      from reduce_entries_each[OF f this]
      show "\<exists>v. convertFromFirestoreValue_part000 h w = Inr v" .
    qed
  next
    assume "list_all (\<lambda>(k, w). \<exists>v. convertFromFirestoreValue_part000 h w = Inr v) flds"
    then have "\<And>kv. kv \<in> set flds
        \<Longrightarrow> \<exists>y. convertFromFirestoreValue_part000 h (snd kv) = Inr y"
      by (auto simp: list_all_iff)
    then have "\<exists>result. reduce_entries (convertFromFirestoreValue_part000 h) flds = Inr result"
      by (rule reduce_entries_total)
    with a show "\<exists>out. convertFromFirestoreDocument_part000 h doc = Inr out"
      by (auto simp: convertFromFirestoreDocument_part000_def)
  qed
qed

theorem id_is_from_resource_name_witness:
  "\<forall>h. (\<exists>out. convertFromFirestoreDocument h
          \<lparr>response_name = ''projects/p/databases/(default)/documents/col/doc1'',
           response_fields = Some [(''id'', WObj [(''stringValue'', WStr ''x'')]),
                                   (''n'', WObj [(''integerValue'', WNum (Finite 7))])],
           response_createTime = None, response_updateTime = None\<rparr> = Inr out
        \<and> js_get out ''id''
            = JStr (getDocumentId h ''projects/p/databases/(default)/documents/col/doc1'')
        \<and> js_get out ''n'' = JNum (Finite 7))
     \<and> (\<exists>out. convertFromFirestoreDocument_part000 h
          \<lparr>response_name = ''projects/p/databases/(default)/documents/col/doc1'',
           response_fields = Some [(''id'', WObj [(''stringValue'', WStr ''x'')]),
                                   (''n'', WObj [(''integerValue'', WNum (Finite 7))])],
           response_createTime = None, response_updateTime = None\<rparr> = Inr out
        \<and> js_get out ''id''
            = JStr (getDocumentId h ''projects/p/databases/(default)/documents/col/doc1'')
        \<and> js_get out ''n'' = JNum (Finite 7))"
proof
  fix h :: host
  define d where "d = \<lparr>response_name = ''projects/p/databases/(default)/documents/col/doc1'',
           response_fields = Some [(''id'', WObj [(''stringValue'', WStr ''x'')]),
                                   (''n'', WObj [(''integerValue'', WNum (Finite 7))])],
           response_createTime = None, response_updateTime = None\<rparr>"
  note T = id_is_from_resource_name[of h d]
  have f: "response_fields d = Some [(''id'', WObj [(''stringValue'', WStr ''x'')]),
                                   (''n'', WObj [(''integerValue'', WNum (Finite 7))])]"
    by (simp add: d_def)
  have a1: "list_all (\<lambda>(k, w). \<exists>v. convertFromFirestoreValue h w = Inr v)
      [(''id'', WObj [(''stringValue'', WStr ''x'')]),
       (''n'', WObj [(''integerValue'', WNum (Finite 7))])]"
    by (simp add: js_Number_def)
  have a2: "list_all (\<lambda>(k, w). \<exists>v. convertFromFirestoreValue_part000 h w = Inr v)
      [(''id'', WObj [(''stringValue'', WStr ''x'')]),
       (''n'', WObj [(''integerValue'', WNum (Finite 7))])]"
    by (simp add: js_Number_def)
  note E = T[THEN conjunct2, THEN conjunct2, THEN conjunct2, rule_format, OF f]
  from E[THEN conjunct1] a1 have "\<exists>out. convertFromFirestoreDocument h d = Inr out"
    by (rule iffD2)
  then obtain out1 where o1: "convertFromFirestoreDocument h d = Inr out1" ..
  from E[THEN conjunct2] a2 have "\<exists>out. convertFromFirestoreDocument_part000 h d = Inr out"
    by (rule iffD2)
  then obtain out2 where o2: "convertFromFirestoreDocument_part000 h d = Inr out2" ..
  from T[THEN conjunct1, rule_format, OF o1]
  have i1: "js_get out1 ''id'' = JStr (getDocumentId h (response_name d))" .
  from T[THEN conjunct2, THEN conjunct1, rule_format, OF o2]
  have i2: "js_get out2 ''id'' = JStr (getDocumentId h (response_name d))" .
  from o1 have n1: "js_get out1 ''n'' = JNum (Finite 7)"
    by (auto simp: d_def convertFromFirestoreDocument_def reduce_entries_def js_Number_def)
  from o2 have n2: "js_get out2 ''n'' = JNum (Finite 7)"
    by (auto simp: d_def convertFromFirestoreDocument_part000_def reduce_entries_def
          js_Number_def)
  from o1 i1 n1 have "\<exists>out. convertFromFirestoreDocument h d = Inr out
        \<and> js_get out ''id'' = JStr (getDocumentId h (response_name d))
        \<and> js_get out ''n'' = JNum (Finite 7)" by blast
  moreover from o2 i2 n2 have "\<exists>out. convertFromFirestoreDocument_part000 h d = Inr out
        \<and> js_get out ''id'' = JStr (getDocumentId h (response_name d))
        \<and> js_get out ''n'' = JNum (Finite 7)" by blast
  ultimately show "(\<exists>out. convertFromFirestoreDocument h
          \<lparr>response_name = ''projects/p/databases/(default)/documents/col/doc1'',
           response_fields = Some [(''id'', WObj [(''stringValue'', WStr ''x'')]),
                                   (''n'', WObj [(''integerValue'', WNum (Finite 7))])],
           response_createTime = None, response_updateTime = None\<rparr> = Inr out
        \<and> js_get out ''id''
            = JStr (getDocumentId h ''projects/p/databases/(default)/documents/col/doc1'')
        \<and> js_get out ''n'' = JNum (Finite 7))
     \<and> (\<exists>out. convertFromFirestoreDocument_part000 h
          \<lparr>response_name = ''projects/p/databases/(default)/documents/col/doc1'',
           response_fields = Some [(''id'', WObj [(''stringValue'', WStr ''x'')]),
                                   (''n'', WObj [(''integerValue'', WNum (Finite 7))])],
           response_createTime = None, response_updateTime = None\<rparr> = Inr out
        \<and> js_get out ''id''
            = JStr (getDocumentId h ''projects/p/databases/(default)/documents/col/doc1'')
        \<and> js_get out ''n'' = JNum (Finite 7))"
    by (simp add: d_def)
qed

end
